theory Spec2Isabelle
  imports Complex_Main
begin

unbundle bit_operations_syntax

section \<open>Python values and exceptions\<close>

text \<open>
  This theory embeds the script \<^verbatim>\<open>sptest.py\<close>: the class \<^verbatim>\<open>SPscript\<close> with its
  methods \<^verbatim>\<open>__init__\<close>, \<^verbatim>\<open>no_command\<close>, \<^verbatim>\<open>run_command\<close> and \<^verbatim>\<open>execute\<close>, and the
  main program. What the script takes from its environment is a parameter of the
  model: the files it may read, and for every run of the command the two readings of
  the clock and the return code. What it takes from the standard library of Python
  (\<^verbatim>\<open>getopt\<close>, \<^verbatim>\<open>int\<close>, \<^verbatim>\<open>str.upper\<close>, \<^verbatim>\<open>float\<close>, and the arithmetic of
  \<^verbatim>\<open>datetime\<close> and \<^verbatim>\<open>timedelta\<close>) is modelled as the library defines it. Not
  modelled are the limits of the machine: memory running out, a thread that cannot be
  started, a pause too long for \<^verbatim>\<open>sleep\<close>.

  The script handles values that come from the command line (always strings) and from
  a JSON file (any JSON value). A float is kept as the rational it denotes, or as one
  of the three special values the JSON decoder of Python accepts. A Python string is
  kept as the bytes of its UTF-8 form, so that ASCII text stands for itself and a
  character outside ASCII takes two to four bytes, all of them 128 or more.
\<close>

datatype pyfloat = Finite rat | PosInf | NegInf | NaN

datatype pyval =
    PNone
  | PBool bool
  | PInt int
  | PFloat pyfloat
  | PStr string
  | PList "pyval list"
  | PDict "(string \<times> pyval) list"

datatype getopt_error =
    NotRecognized string
  | RequiresArgument string
  | MustNotHaveArgument string
  | NotUniquePrefix string

datatype exn =
    ValueError
  | TypeError
  | OverflowError
  | AttributeError
  | IndexError
  | ZeroDivisionError
  | GetoptError getopt_error
  | OtherError string

text \<open>What a call produces: a value, \<^verbatim>\<open>exit(code)\<close>, or a raised exception.\<close>

datatype 'a outcome = Return 'a | Exits nat | Raises exn

text \<open>Truth value of a Python object, as \<^verbatim>\<open>not self.command\<close> tests it.\<close>

fun truthy :: "pyval \<Rightarrow> bool" where
  "truthy PNone = False"
| "truthy (PBool b) = b"
| "truthy (PInt i) = (i \<noteq> 0)"
| "truthy (PFloat f) = (f \<noteq> Finite 0)"
| "truthy (PStr s) = (s \<noteq> [])"
| "truthy (PList xs) = (xs \<noteq> [])"
| "truthy (PDict kvs) = (kvs \<noteq> [])"

subsection \<open>Strings outside ASCII\<close>

text \<open>
  What \<^verbatim>\<open>str.upper\<close> and \<^verbatim>\<open>int\<close> make of a string with a character outside
  ASCII is laid down in the Unicode tables of the interpreter, which differ from one
  version of Python to the next: the dotless \<^verbatim>\<open>i\<close> (U+0131) has the upper-case form
  \<^verbatim>\<open>I\<close> and the long \<^verbatim>\<open>s\<close> (U+017F) the form \<^verbatim>\<open>S\<close>, the no-break space
  (U+00A0) is white space to \<^verbatim>\<open>int\<close>, and the decimal digits of every script are
  digits to it. The model takes these tables as a parameter: \<open>str_upper lib s\<close> is the
  upper-case form of such a string, and \<open>str_int lib s\<close> the integer it denotes, or
  \<open>None\<close> where \<^verbatim>\<open>int\<close> raises \<^verbatim>\<open>ValueError\<close>. Nothing is assumed of them, so
  what is proved holds for every version of the tables. On ASCII strings the library is
  modelled in full, and the parameter is not looked at.
\<close>

record strlib =
  str_upper :: "string \<Rightarrow> string"
  str_int :: "string \<Rightarrow> int option"

definition is_ascii :: "string \<Rightarrow> bool" where
  "is_ascii s = list_all (\<lambda>c. (of_char c :: nat) < 128) s"

subsection \<open>\<^verbatim>\<open>str.upper\<close>\<close>

definition upper_char :: "char \<Rightarrow> char" where
  "upper_char c =
     (let n = (of_char c :: nat) in if 97 \<le> n \<and> n \<le> 122 then char_of (n - 32) else c)"

definition upper :: "strlib \<Rightarrow> string \<Rightarrow> string" where
  "upper lib s = (if is_ascii s then map upper_char s else str_upper lib s)"

subsection \<open>\<^verbatim>\<open>int(value)\<close>\<close>

text \<open>
  On an ASCII string, \<^verbatim>\<open>int\<close> accepts optional white space, an optional sign, and
  decimal digits in which single underscores may stand between two digits; then
  optional white space again. Everything else is a \<^verbatim>\<open>ValueError\<close>. A string with a
  character outside ASCII is read as the Unicode tables say.
\<close>

definition is_space :: "char \<Rightarrow> bool" where
  "is_space c \<longleftrightarrow> (of_char c :: nat) \<in> {9, 10, 11, 12, 13, 32}"

definition is_digit :: "char \<Rightarrow> bool" where
  "is_digit c \<longleftrightarrow> 48 \<le> (of_char c :: nat) \<and> (of_char c :: nat) \<le> 57"

definition digit_value :: "char \<Rightarrow> int" where
  "digit_value c = int (of_char c) - 48"

fun int_literal :: "string \<Rightarrow> int \<Rightarrow> bool \<Rightarrow> int option" where
  "int_literal [] acc prev_digit = (if prev_digit then Some acc else None)"
| "int_literal (c # cs) acc prev_digit =
     (if is_digit c then int_literal cs (10 * acc + digit_value c) True
      else if c = CHR ''_'' \<and> prev_digit then int_literal cs acc False
      else None)"

definition strip :: "string \<Rightarrow> string" where
  "strip s = rev (dropWhile is_space (rev (dropWhile is_space s)))"

definition ascii_int :: "string \<Rightarrow> int option" where
  "ascii_int s =
     (case strip s of
        [] \<Rightarrow> None
      | c # cs \<Rightarrow>
          if c = CHR ''-'' then map_option uminus (int_literal cs 0 False)
          else if c = CHR ''+'' then int_literal cs 0 False
          else int_literal (c # cs) 0 False)"

definition int_of_string :: "strlib \<Rightarrow> string \<Rightarrow> int option" where
  "int_of_string lib s = (if is_ascii s then ascii_int s else str_int lib s)"

definition truncate :: "rat \<Rightarrow> int" where
  "truncate q = (if 0 \<le> q then \<lfloor>q\<rfloor> else \<lceil>q\<rceil>)"

fun py_int :: "strlib \<Rightarrow> pyval \<Rightarrow> exn + int" where
  "py_int lib (PInt i) = Inr i"
| "py_int lib (PBool b) = Inr (if b then 1 else 0)"
| "py_int lib (PFloat (Finite q)) = Inr (truncate q)"
| "py_int lib (PFloat NaN) = Inl ValueError"
| "py_int lib (PFloat PosInf) = Inl OverflowError"
| "py_int lib (PFloat NegInf) = Inl OverflowError"
| "py_int lib (PStr s) = (case int_of_string lib s of None \<Rightarrow> Inl ValueError | Some i \<Rightarrow> Inr i)"
| "py_int lib PNone = Inl TypeError"
| "py_int lib (PList xs) = Inl TypeError"
| "py_int lib (PDict kvs) = Inl TypeError"

section \<open>Option parsing: the standard library's \<^verbatim>\<open>getopt.getopt\<close>\<close>

text \<open>
  The script calls \<^verbatim>\<open>getopt(cmdl_params, "c:n:w:ph", ["help"])\<close>. The functions below
  follow \<^verbatim>\<open>getopt.py\<close> of the standard library, function by function:
  \<^verbatim>\<open>getopt(args, shortopts, longopts)\<close> scans the arguments from the left while they
  start with a dash (and are not the single dash), stops at \<^verbatim>\<open>--\<close> or at the first
  other argument, and returns the options found with the arguments left over. A long
  option may be shortened to a prefix that only one name starts with.
\<close>

fun short_has_arg :: "char \<Rightarrow> string \<Rightarrow> getopt_error + bool" where
  "short_has_arg opt [] = Inl (NotRecognized [CHR ''-'', opt])"
| "short_has_arg opt (c # shortopts) =
     (if opt = c \<and> c \<noteq> CHR '':'' then Inr (take 1 shortopts = '':'')
      else short_has_arg opt shortopts)"

text \<open>
  \<^verbatim>\<open>do_shorts\<close> takes the option characters one by one. A character outside ASCII is
  no option of the script; the error then names the whole character, its first byte
  with the continuation bytes that follow.
\<close>

definition is_continuation :: "char \<Rightarrow> bool" where
  "is_continuation c \<longleftrightarrow> 128 \<le> (of_char c :: nat) \<and> (of_char c :: nat) < 192"

fun do_shorts ::
  "(string \<times> string) list \<Rightarrow> string \<Rightarrow> string \<Rightarrow> string list \<Rightarrow>
     getopt_error + ((string \<times> string) list \<times> string list)" where
  "do_shorts opts [] shortopts args = Inr (opts, args)"
| "do_shorts opts (opt # optstring) shortopts args =
     (case short_has_arg opt shortopts of
        Inl e \<Rightarrow>
          (if (of_char opt :: nat) < 128 then Inl e
           else Inl (NotRecognized (CHR ''-'' # opt # takeWhile is_continuation optstring)))
      | Inr True \<Rightarrow>
          (if optstring = [] then
             (case args of
                [] \<Rightarrow> Inl (RequiresArgument [CHR ''-'', opt])
              | a # args' \<Rightarrow> Inr (opts @ [([CHR ''-'', opt], a)], args'))
           else Inr (opts @ [([CHR ''-'', opt], optstring)], args))
      | Inr False \<Rightarrow> do_shorts (opts @ [([CHR ''-'', opt], [])]) optstring shortopts args)"

definition long_has_args :: "string \<Rightarrow> string list \<Rightarrow> getopt_error + (bool \<times> string)" where
  "long_has_args opt longopts =
     (let possibilities = filter (\<lambda>o'. take (length opt) o' = opt) longopts in
      if possibilities = [] then Inl (NotRecognized (''--'' @ opt))
      else if opt \<in> set possibilities then Inr (False, opt)
      else if opt @ ''='' \<in> set possibilities then Inr (True, opt)
      else if 1 < length possibilities then Inl (NotUniquePrefix (''--'' @ opt))
      else
        (let unique_match = hd possibilities;
             has_arg = (unique_match \<noteq> [] \<and> last unique_match = CHR ''='')
         in Inr (has_arg, if has_arg then butlast unique_match else unique_match)))"

definition do_longs ::
  "(string \<times> string) list \<Rightarrow> string \<Rightarrow> string list \<Rightarrow> string list \<Rightarrow>
     getopt_error + ((string \<times> string) list \<times> string list)" where
  "do_longs opts opt longopts args =
     (let name = takeWhile (\<lambda>c. c \<noteq> CHR ''='') opt;
          optarg = (if CHR ''='' \<in> set opt
                    then Some (tl (dropWhile (\<lambda>c. c \<noteq> CHR ''='') opt)) else None)
      in case long_has_args name longopts of
           Inl e \<Rightarrow> Inl e
         | Inr (has_arg, full) \<Rightarrow>
             (if has_arg then
                (case optarg of
                   Some v \<Rightarrow> Inr (opts @ [(''--'' @ full, v)], args)
                 | None \<Rightarrow>
                     (case args of
                        [] \<Rightarrow> Inl (RequiresArgument (''--'' @ full))
                      | a # args' \<Rightarrow> Inr (opts @ [(''--'' @ full, a)], args')))
              else
                (case optarg of
                   Some v \<Rightarrow> Inl (MustNotHaveArgument (''--'' @ full))
                 | None \<Rightarrow> Inr (opts @ [(''--'' @ full, [])], args))))"

lemma do_shorts_length:
  "do_shorts opts optstring shortopts args = Inr (opts', args') \<Longrightarrow> length args' \<le> length args"
  by (induction opts optstring shortopts args rule: do_shorts.induct)
     (auto split: sum.splits bool.splits if_splits list.splits)

lemma do_longs_length:
  "do_longs opts opt longopts args = Inr (opts', args') \<Longrightarrow> length args' \<le> length args"
  by (auto simp: do_longs_def Let_def split: sum.splits if_splits option.splits list.splits)

function getopt_loop ::
  "(string \<times> string) list \<Rightarrow> string list \<Rightarrow> string \<Rightarrow> string list \<Rightarrow>
     getopt_error + ((string \<times> string) list \<times> string list)" where
  "getopt_loop opts [] shortopts longopts = Inr (opts, [])"
| "getopt_loop opts (a # args) shortopts longopts =
     (if take 1 a = ''-'' \<and> a \<noteq> ''-'' then
        (if a = ''--'' then Inr (opts, args)
         else if take 2 a = ''--'' then
           (case do_longs opts (drop 2 a) longopts args of
              Inl e \<Rightarrow> Inl e
            | Inr (opts', args') \<Rightarrow> getopt_loop opts' args' shortopts longopts)
         else
           (case do_shorts opts (drop 1 a) shortopts args of
              Inl e \<Rightarrow> Inl e
            | Inr (opts', args') \<Rightarrow> getopt_loop opts' args' shortopts longopts))
      else Inr (opts, a # args))"
  by pat_completeness auto
termination
  by (relation "measure (\<lambda>(opts, args, shortopts, longopts). length args)")
     (auto dest: do_shorts_length do_longs_length)

definition getopt ::
  "string list \<Rightarrow> string \<Rightarrow> string list \<Rightarrow>
     getopt_error + ((string \<times> string) list \<times> string list)" where
  "getopt args shortopts longopts = getopt_loop [] args shortopts longopts"

section \<open>The environment: files, clock and child processes\<close>

text \<open>
  What \<^verbatim>\<open>isfile\<close>, \<^verbatim>\<open>open\<close>/\<^verbatim>\<open>read\<close> and \<^verbatim>\<open>json.loads\<close> make of a file name:
  no such file, a file that cannot be read, text that is not JSON, or the decoded value.
\<close>

datatype file_state = NotAFile | ReadFails | BadJson | Json pyval

type_synonym filesystem = "string \<Rightarrow> file_state"

text \<open>
  Instants are microseconds since 0001-01-01 00:00:00, the smallest \<^verbatim>\<open>datetime\<close>;
  durations (\<^verbatim>\<open>timedelta\<close>) are whole microseconds too. Both types are bounded.
\<close>

definition DATETIME_MIN :: int where
  "DATETIME_MIN = 0"

definition DATETIME_MAX :: int where
  "DATETIME_MAX = 3652059 * 86400000000 - 1"

definition MAXYEAR_12_31 :: int where
  \<comment> \<open>\<^verbatim>\<open>datetime(year=MAXYEAR, month=12, day=31)\<close>: midnight at the start of the last day\<close>
  "MAXYEAR_12_31 = 3652058 * 86400000000"

definition TIMEDELTA_MIN :: int where
  "TIMEDELTA_MIN = - 999999999 * 86400000000"

definition TIMEDELTA_MAX :: int where
  "TIMEDELTA_MAX = 1000000000 * 86400000000 - 1"

definition is_datetime :: "int \<Rightarrow> bool" where
  "is_datetime t \<longleftrightarrow> DATETIME_MIN \<le> t \<and> t \<le> DATETIME_MAX"

definition is_timedelta :: "int \<Rightarrow> bool" where
  "is_timedelta d \<longleftrightarrow> TIMEDELTA_MIN \<le> d \<and> d \<le> TIMEDELTA_MAX"

text \<open>
  One run of the command, as \<^verbatim>\<open>run_command\<close> sees it: the clock before, the return
  code, the clock after; or an exception out of \<^verbatim>\<open>subprocess.run\<close>.
\<close>

datatype run_result = Finished int int int | Crashed exn

type_synonym world = "nat \<Rightarrow> run_result"

section \<open>Console output and other observable events\<close>

datatype line =
    FileNotFound string
  | FileReadError string
  | JsonParseError string
  | BadIntegers
  | GetoptErrorAndHelp getopt_error
  | HelpText
  | NoCommandAndHelp
  | Unhandled exn
  | Executing pyval int int
  | InParallelMode
  | InSequentialMode
  | StartingIteration int
  | Started
  | DoneIn int
  | WaitingForThreads
  | Done
  | TotalTime int
  | Fastest int
  | Slowest int
  | Average int
  | Median int
  | Attention int

datatype event = Print line | RunCommand pyval nat | Sleep int

section \<open>The script object\<close>

record timing =
  e_code :: int
  start :: int
  finish :: int
  time :: int

record SPscript =
  mode_prl :: bool
  command :: pyval
  runs :: int
  pause :: int
  timings :: "timing list"

definition DEFAULT_RUNS :: int where
  "DEFAULT_RUNS = 8"

definition DEFAULT_PAUSE :: int where
  "DEFAULT_PAUSE = 5"

definition TIME_NONE :: int where
  "TIME_NONE = DATETIME_MIN"

definition blank_timing :: timing where
  "blank_timing = \<lparr>e_code = 0, start = TIME_NONE, finish = TIME_NONE, time = 0\<rparr>"

definition no_command :: "event list \<times> SPscript outcome" where
  "no_command = ([Print NoCommandAndHelp], Exits 2)"

subsection \<open>\<^verbatim>\<open>SPscript.__init__\<close>\<close>

text \<open>The keys the option loop tells apart, in the order of its \<^verbatim>\<open>elif\<close> chain.\<close>

definition is_command_key :: "strlib \<Rightarrow> string \<Rightarrow> bool" where
  "is_command_key lib opt \<longleftrightarrow> opt = ''-c'' \<or> upper lib opt = ''COMMAND''"

definition is_runs_key :: "strlib \<Rightarrow> string \<Rightarrow> bool" where
  "is_runs_key lib opt \<longleftrightarrow> opt = ''-n'' \<or> upper lib opt = ''TIMES''"

definition is_pause_key :: "strlib \<Rightarrow> string \<Rightarrow> bool" where
  "is_pause_key lib opt \<longleftrightarrow> opt = ''-w'' \<or> upper lib opt = ''SECONDS''"

definition is_parallel_key :: "strlib \<Rightarrow> string \<Rightarrow> bool" where
  "is_parallel_key lib opt \<longleftrightarrow> opt = ''-p'' \<or> upper lib opt = ''PARALLEL''"

definition is_help_key :: "string \<Rightarrow> bool" where
  "is_help_key opt \<longleftrightarrow> opt \<in> {''-h'', ''--help''}"

text \<open>One turn of the loop \<^verbatim>\<open>for opt, value in opts\<close>.\<close>

definition apply_option :: "strlib \<Rightarrow> SPscript \<Rightarrow> string \<times> pyval \<Rightarrow> event list \<times> SPscript outcome" where
  "apply_option lib self ov =
     (let opt = fst ov; value = snd ov;
          assigned =
            (if is_command_key lib opt then ([], Return (self\<lparr>command := value\<rparr>))
             else if is_runs_key lib opt then
               (case py_int lib value of
                  Inl e \<Rightarrow> ([], Raises e)
                | Inr n \<Rightarrow> ([], Return (self\<lparr>runs := n\<rparr>)))
             else if is_pause_key lib opt then
               (case py_int lib value of
                  Inl e \<Rightarrow> ([], Raises e)
                | Inr n \<Rightarrow> ([], Return (self\<lparr>pause := n\<rparr>)))
             else if is_parallel_key lib opt then ([], Return (self\<lparr>mode_prl := True\<rparr>))
             else if is_help_key opt then ([Print HelpText], Exits 0)
             else ([], Return self))
      in case assigned of
           (out, Return self') \<Rightarrow>
             if runs self' < 1 \<or> pause self' < 0 then (out, Raises ValueError)
             else (out, Return self')
         | other \<Rightarrow> other)"

fun options_loop :: "strlib \<Rightarrow> (string \<times> pyval) list \<Rightarrow> SPscript \<Rightarrow> event list \<times> SPscript outcome" where
  "options_loop lib [] self = ([], Return self)"
| "options_loop lib (ov # opts) self =
     (case apply_option lib self ov of
        (out, Return self') \<Rightarrow>
          (case options_loop lib opts self' of (out', r) \<Rightarrow> (out @ out', r))
      | other \<Rightarrow> other)"

text \<open>\<^verbatim>\<open>json_data.items()\<close>: only a JSON object has items.\<close>

fun items :: "pyval \<Rightarrow> exn + (string \<times> pyval) list" where
  "items (PDict kvs) = Inr kvs"
| "items other = Inl AttributeError"

text \<open>
  Lines 83 to 99: with a positional argument, the options become the items of the
  file it names; without one they stay those of the command line (whose values are
  strings).
\<close>

definition load_opts ::
  "filesystem \<Rightarrow> (string \<times> string) list \<Rightarrow> string list \<Rightarrow>
     event list \<times> (string \<times> pyval) list outcome" where
  "load_opts fs opts args =
     (case args of
        [] \<Rightarrow> ([], Return (map (\<lambda>(opt, v). (opt, PStr v)) opts))
      | filename # rest \<Rightarrow>
          (case fs filename of
             NotAFile \<Rightarrow> ([Print (FileNotFound filename)], Exits 2)
           | ReadFails \<Rightarrow> ([Print (FileReadError filename)], Exits 2)
           | BadJson \<Rightarrow> ([Print (JsonParseError filename)], Exits 2)
           | Json json_data \<Rightarrow>
               (case items json_data of
                  Inl e \<Rightarrow> ([], Raises e)
                | Inr kvs \<Rightarrow> ([], Return kvs))))"

text \<open>The body of the \<^verbatim>\<open>try\<close> statement.\<close>

definition try_body ::
  "strlib \<Rightarrow> filesystem \<Rightarrow> string list \<Rightarrow> SPscript \<Rightarrow> event list \<times> SPscript outcome" where
  "try_body lib fs cmdl_params self =
     (case getopt cmdl_params ''c:n:w:ph'' [''help''] of
        Inl e \<Rightarrow> ([], Raises (GetoptError e))
      | Inr (opts, args) \<Rightarrow>
          if opts = [] \<and> args = [] then no_command
          else
            (case load_opts fs opts args of
               (out, Return opts') \<Rightarrow>
                 (case options_loop lib opts' self of (out', r) \<Rightarrow> (out @ out', r))
             | (out, Exits c) \<Rightarrow> (out, Exits c)
             | (out, Raises e) \<Rightarrow> (out, Raises e)))"

text \<open>The attributes as lines 74 to 77 set them; \<open>timings\<close> is filled in last.\<close>

definition initial_script :: SPscript where
  "initial_script =
     \<lparr>mode_prl = False, command = PStr [], runs = DEFAULT_RUNS, pause = DEFAULT_PAUSE,
      timings = []\<rparr>"

definition SPscript_init ::
  "strlib \<Rightarrow> filesystem \<Rightarrow> string list \<Rightarrow> event list \<times> SPscript outcome" where
  "SPscript_init lib fs cmdl_params =
     (case try_body lib fs cmdl_params initial_script of
        (out, Raises ValueError) \<Rightarrow> (out @ [Print BadIntegers], Exits 2)
      | (out, Raises (GetoptError err)) \<Rightarrow> (out @ [Print (GetoptErrorAndHelp err)], Exits 2)
      | (out, Raises e) \<Rightarrow> (out, Raises e)
      | (out, Exits c) \<Rightarrow> (out, Exits c)
      | (out, Return self') \<Rightarrow>
          if truthy (command self')
          then (out, Return (self'\<lparr>timings := replicate (nat (runs self')) blank_timing\<rparr>))
          else (case no_command of (out', r) \<Rightarrow> (out @ out', r)))"

subsection \<open>\<^verbatim>\<open>SPscript.run_command\<close>\<close>

definition run_command :: "world \<Rightarrow> SPscript \<Rightarrow> nat \<Rightarrow> event list \<times> SPscript outcome" where
  "run_command w self iteration =
     (case w iteration of
        Crashed e \<Rightarrow> ([RunCommand (command self) iteration], Raises e)
      | Finished data_start returncode data_finish \<Rightarrow>
          if iteration < length (timings self) then
            ([RunCommand (command self) iteration],
             Return (self\<lparr>timings := (timings self)[iteration :=
               \<lparr>e_code = returncode, start = data_start, finish = data_finish,
                time = data_finish - data_start\<rparr>]\<rparr>))
          else ([RunCommand (command self) iteration], Raises IndexError))"

subsection \<open>Arithmetic of \<^verbatim>\<open>timedelta\<close> and \<^verbatim>\<open>float\<close>\<close>

text \<open>
  These are operations of the standard library on whole microseconds. A
  \<^verbatim>\<open>timedelta\<close> out of range (beyond 999999999 days either way) is an
  \<^verbatim>\<open>OverflowError\<close>.
\<close>

definition timedelta :: "int \<Rightarrow> exn + int" where
  "timedelta us = (if is_timedelta us then Inr us else Inl OverflowError)"

text \<open>
  \<^verbatim>\<open>_divide_and_round(a, b)\<close> of the \<^verbatim>\<open>datetime\<close> module: the integer nearest to
  \<open>a / b\<close>, the even one of the two when \<open>a / b\<close> lies half way.
\<close>

definition divide_and_round :: "int \<Rightarrow> int \<Rightarrow> int" where
  "divide_and_round a b =
     (let q = a div b; r = 2 * (a mod b);
          greater_than_half = (if 0 < b then b < r else r < b)
      in if greater_than_half \<or> (r = b \<and> q mod 2 = 1) then q + 1 else q)"

function bit_length :: "int \<Rightarrow> nat" where
  "bit_length n = (if n \<le> 0 then 0 else Suc (bit_length (n div 2)))"
  by pat_completeness auto
termination
  by (relation "measure nat") auto

declare bit_length.simps [simp del]

text \<open>
  \<^verbatim>\<open>float(n).as_integer_ratio()\<close> for an integer \<open>n\<close>: a double holds 53 significant
  bits, so a longer integer is rounded to the nearest double (to the even one half
  way), and one that rounds beyond the largest double is an \<^verbatim>\<open>OverflowError\<close>.
\<close>

definition float_ratio :: "int \<Rightarrow> exn + (int \<times> int)" where
  "float_ratio n =
     (let m = \<bar>n\<bar>; bits = bit_length m in
      if bits \<le> 53 then Inr (n, 1)
      else
        (let shift = bits - 53;
             q = m div 2 ^ shift;
             r = m mod 2 ^ shift;
             half = 2 ^ (shift - 1);
             q' = (if half < r \<or> (r = half \<and> odd q) then q + 1 else q);
             v = q' * 2 ^ shift
         in if 2 ^ 1024 \<le> v then Inl OverflowError else Inr (sgn n * v, 1)))"

text \<open>
  \<^verbatim>\<open>delta / f\<close> for a float \<open>f\<close> with \<^verbatim>\<open>f.as_integer_ratio() = (a, b)\<close> is
  \<^verbatim>\<open>_divide_and_round(b * usec, a)\<close> microseconds, and \<^verbatim>\<open>delta * f\<close> is
  \<^verbatim>\<open>_divide_and_round(usec * a, b)\<close>. The script divides by \<^verbatim>\<open>float(self.runs)\<close> and
  multiplies by \<^verbatim>\<open>0.5\<close>, whose ratio is \<open>(1, 2)\<close>.
\<close>

definition timedelta_truediv_float :: "int \<Rightarrow> int \<Rightarrow> exn + int" where
  "timedelta_truediv_float usec n =
     (case float_ratio n of
        Inl e \<Rightarrow> Inl e
      | Inr (a, b) \<Rightarrow>
          if a = 0 then Inl ZeroDivisionError
          else timedelta (divide_and_round (b * usec) a))"

definition timedelta_mul_half :: "int \<Rightarrow> exn + int" where
  "timedelta_mul_half usec = timedelta (divide_and_round (usec * 1) 2)"

definition timedelta_add :: "int \<Rightarrow> int \<Rightarrow> exn + int" where
  "timedelta_add a b = timedelta (a + b)"

text \<open>Indexing a list the Python way: a negative index counts from the end.\<close>

definition getitem :: "'a list \<Rightarrow> int \<Rightarrow> exn + 'a" where
  "getitem xs i =
     (if 0 \<le> i then
        (if i < int (length xs) then Inr (xs ! nat i) else Inl IndexError)
      else if - int (length xs) \<le> i then Inr (xs ! nat (int (length xs) + i))
      else Inl IndexError)"

subsection \<open>\<^verbatim>\<open>SPscript.execute\<close>: running the command\<close>

text \<open>
  The loop \<^verbatim>\<open>for i in range(self.runs)\<close>. In parallel mode the command runs in a
  thread of its own; the threads write to different entries of \<^verbatim>\<open>timings\<close> and are
  all joined before the results are read, so the state after the join is the one
  obtained by letting every thread finish where it is started. An exception inside a
  thread ends that thread only and leaves its entry as it was.
\<close>

fun run_loop :: "world \<Rightarrow> nat list \<Rightarrow> SPscript \<Rightarrow> event list \<times> SPscript outcome" where
  "run_loop w [] self = ([], Return self)"
| "run_loop w (i # rest) self =
     (let starting = [Print (StartingIteration (int i + 1))];
          ran =
            (if mode_prl self then
               (case run_command w self i of
                  (ev, Return self') \<Rightarrow> (ev @ [Print Started], Return self')
                | (ev, other) \<Rightarrow> (ev @ [Print Started], Return self))
             else
               (case run_command w self i of
                  (ev, Return self') \<Rightarrow>
                    (case getitem (timings self') (int i) of
                       Inl e \<Rightarrow> (ev, Raises e)
                     | Inr t \<Rightarrow> (ev @ [Print (DoneIn (time t))], Return self'))
                | other \<Rightarrow> other))
      in case ran of
           (ev, Return self') \<Rightarrow>
             (let sleeping = (if int i + 1 < runs self' then [Sleep (pause self')] else [])
              in case run_loop w rest self' of
                   (ev', r) \<Rightarrow> (starting @ ev @ sleeping @ ev', r))
         | (ev, other) \<Rightarrow> (starting @ ev, other))"

subsection \<open>\<^verbatim>\<open>SPscript.execute\<close>: results processing\<close>

record results =
  min_start :: int
  max_finish :: int
  sum_time :: int
  min_time :: int
  max_time :: int
  error_cnt :: int

definition initial_results :: results where
  "initial_results =
     \<lparr>min_start = MAXYEAR_12_31, max_finish = DATETIME_MIN, sum_time = 0,
      min_time = TIMEDELTA_MAX, max_time = TIMEDELTA_MIN, error_cnt = 0\<rparr>"

text \<open>The loop \<^verbatim>\<open>for timing in self.timings\<close>.\<close>

fun timing_loop :: "timing list \<Rightarrow> results \<Rightarrow> exn + results" where
  "timing_loop [] acc = Inr acc"
| "timing_loop (timing # rest) acc =
     (let acc1 = (if e_code timing \<noteq> 0 then acc\<lparr>error_cnt := error_cnt acc + 1\<rparr> else acc);
          acc2 = (if start timing < min_start acc1
                  then acc1\<lparr>min_start := start timing\<rparr> else acc1);
          acc3 = (if max_finish acc2 < finish timing
                  then acc2\<lparr>max_finish := finish timing\<rparr> else acc2);
          acc4 = (if time timing < min_time acc3
                  then acc3\<lparr>min_time := time timing\<rparr> else acc3);
          acc5 = (if max_time acc4 < time timing
                  then acc4\<lparr>max_time := time timing\<rparr> else acc4)
      in case timedelta_add (sum_time acc5) (time timing) of
           Inl e \<Rightarrow> Inl e
         | Inr summed \<Rightarrow> timing_loop rest (acc5\<lparr>sum_time := summed\<rparr>))"

text \<open>Lines 199 to 202: the median of the sorted durations.\<close>

definition median_of :: "SPscript \<Rightarrow> exn + int" where
  "median_of self =
     (let times = sort (map time (timings self));
          mid_pos = runs self div 2
      in case getitem times mid_pos of
           Inl e \<Rightarrow> Inl e
         | Inr lo \<Rightarrow>
             (case getitem times (NOT mid_pos) of
                Inl e \<Rightarrow> Inl e
              | Inr hi \<Rightarrow>
                  (case timedelta_add lo hi of
                     Inl e \<Rightarrow> Inl e
                   | Inr both \<Rightarrow> timedelta_mul_half both)))"

text \<open>The figures the summary block prints.\<close>

record report =
  total_time :: int
  fastest :: int
  slowest :: int
  average :: int
  median :: int
  errors :: int

definition results_processing :: "SPscript \<Rightarrow> event list \<times> report outcome" where
  "results_processing self =
     (case timing_loop (timings self) initial_results of
        Inl e \<Rightarrow> ([], Raises e)
      | Inr acc \<Rightarrow>
          (let span = max_finish acc - min_start acc;
               head = [Print (TotalTime span), Print (Fastest (min_time acc)),
                       Print (Slowest (max_time acc))]
           in case timedelta_truediv_float (sum_time acc) (runs self) of
                Inl e \<Rightarrow> (head, Raises e)
              | Inr avg \<Rightarrow>
                  (case median_of self of
                     Inl e \<Rightarrow> (head @ [Print (Average avg)], Raises e)
                   | Inr med \<Rightarrow>
                       (head @ [Print (Average avg), Print (Median med)] @
                          (if error_cnt acc \<noteq> 0 then [Print (Attention (error_cnt acc))]
                           else []),
                        Return \<lparr>total_time = span, fastest = min_time acc,
                                slowest = max_time acc, average = avg, median = med,
                                errors = error_cnt acc\<rparr>))))"

text \<open>
  \<^verbatim>\<open>execute\<close> changes the object it is called on; the model hands the changed
  object back, next to the figures it printed.
\<close>

definition execute :: "world \<Rightarrow> SPscript \<Rightarrow> event list \<times> (SPscript \<times> report) outcome" where
  "execute w self =
     (let banner = [Print (Executing (command self) (runs self) (pause self)),
                    Print (if mode_prl self then InParallelMode else InSequentialMode)]
      in case run_loop w [0..<nat (runs self)] self of
           (ev, Return self') \<Rightarrow>
             (let joined = (if mode_prl self' then [Print WaitingForThreads, Print Done] else [])
              in case results_processing self' of
                   (ev', Return rep) \<Rightarrow> (banner @ ev @ joined @ ev', Return (self', rep))
                 | (ev', Exits c) \<Rightarrow> (banner @ ev @ joined @ ev', Exits c)
                 | (ev', Raises e) \<Rightarrow> (banner @ ev @ joined @ ev', Raises e))
         | (ev, Exits c) \<Rightarrow> (banner @ ev, Exits c)
         | (ev, Raises e) \<Rightarrow> (banner @ ev, Raises e))"

section \<open>The main program\<close>

text \<open>
  The result is what the process did (its prints, the commands it started, its pauses)
  and its exit status. \<open>argv\<close> stands for \<^verbatim>\<open>sys.argv[1:]\<close>.
\<close>

definition main :: "strlib \<Rightarrow> filesystem \<Rightarrow> world \<Rightarrow> string list \<Rightarrow> event list \<times> nat" where
  "main lib fs w argv =
     (case SPscript_init lib fs argv of
        (ev, Return script) \<Rightarrow>
          (case execute w script of
             (ev', Return rep) \<Rightarrow> (ev @ ev', 0)
           | (ev', Exits c) \<Rightarrow> (ev @ ev', c)
           | (ev', Raises err) \<Rightarrow> (ev @ ev' @ [Print (Unhandled err)], 1))
      | (ev, Exits c) \<Rightarrow> (ev, c)
      | (ev, Raises err) \<Rightarrow> (ev @ [Print (Unhandled err)], 1))"

definition commands_run :: "event list \<Rightarrow> nat" where
  "commands_run evs = length (filter (\<lambda>e. case e of RunCommand c i \<Rightarrow> True | _ \<Rightarrow> False) evs)"

section \<open>A sample run\<close>

text \<open>
  Two sequential runs on 2024-01-01, of 1001 and 1002 microseconds, the second one
  failing. The theorems below are tried on it.
\<close>

definition reported :: "event list \<times> (SPscript \<times> report) outcome \<Rightarrow> report option" where
  "reported r = (case snd r of Return (self, rep) \<Rightarrow> Some rep | _ \<Rightarrow> None)"

definition records :: "event list \<times> (SPscript \<times> report) outcome \<Rightarrow> timing list" where
  "records r = (case snd r of Return (self, rep) \<Rightarrow> timings self | _ \<Rightarrow> [])"

definition example_world :: world where
  "example_world i =
     (if i = 0 then Finished 63839664000000000 0 63839664000001001
      else Finished 63839664000002000 1 63839664000003002)"

definition example_script :: SPscript where
  "example_script =
     \<lparr>mode_prl = False, command = PStr ''true'', runs = 2, pause = 0,
      timings = [blank_timing, blank_timing]\<rparr>"

definition example_report :: report where
  "example_report =
     \<lparr>total_time = 3002, fastest = 1001, slowest = 1002, average = 1002, median = 1002,
      errors = 1\<rparr>"

definition example_final :: SPscript where
  "example_final =
     example_script\<lparr>timings :=
       [\<lparr>e_code = 0, start = 63839664000000000, finish = 63839664000001001, time = 1001\<rparr>,
        \<lparr>e_code = 1, start = 63839664000002000, finish = 63839664000003002, time = 1002\<rparr>]\<rparr>"

definition example_events :: "event list" where
  "example_events =
     [Print (Executing (PStr ''true'') 2 0), Print InSequentialMode,
      Print (StartingIteration 1), RunCommand (PStr ''true'') 0, Print (DoneIn 1001), Sleep 0,
      Print (StartingIteration 2), RunCommand (PStr ''true'') 1, Print (DoneIn 1002),
      Print (TotalTime 3002), Print (Fastest 1001), Print (Slowest 1002),
      Print (Average 1002), Print (Median 1002), Print (Attention 1)]"

section \<open>Vocabulary for the claims about configuration\<close>

text \<open>A key the option loop reacts to, and the state the loop keeps valid.\<close>

definition recognized_key :: "strlib \<Rightarrow> string \<Rightarrow> bool" where
  "recognized_key lib opt \<longleftrightarrow>
     is_command_key lib opt \<or> is_runs_key lib opt \<or> is_pause_key lib opt
       \<or> is_parallel_key lib opt \<or> is_help_key opt"

text \<open>
  The keys that set a parameter, and the value a list of items gives last for the keys
  of one kind; this is how a reader of the file would look a parameter up.
\<close>

definition configuration_key :: "strlib \<Rightarrow> string \<Rightarrow> bool" where
  "configuration_key lib opt \<longleftrightarrow>
     is_command_key lib opt \<or> is_runs_key lib opt \<or> is_pause_key lib opt
       \<or> is_parallel_key lib opt"

fun last_value :: "(string \<Rightarrow> bool) \<Rightarrow> (string \<times> pyval) list \<Rightarrow> pyval option" where
  "last_value P [] = None"
| "last_value P ((k, v) # kvs) =
     (case last_value P kvs of
        Some later \<Rightarrow> Some later
      | None \<Rightarrow> if P k then Some v else None)"

definition valid_numbers :: "SPscript \<Rightarrow> bool" where
  "valid_numbers self \<longleftrightarrow> 1 \<le> runs self \<and> 0 \<le> pause self"

text \<open>
  A value is suitable for \<^verbatim>\<open>-n\<close> when \<^verbatim>\<open>int\<close> makes a number of at least 1 of it,
  and for \<^verbatim>\<open>-w\<close> when the number is at least 0. It is unsuitable when \<^verbatim>\<open>int\<close>
  makes a smaller number of it or raises \<^verbatim>\<open>ValueError\<close>. A value of a type that
  \<^verbatim>\<open>int\<close> does not take at all is neither.
\<close>

definition suitable_runs :: "strlib \<Rightarrow> pyval \<Rightarrow> bool" where
  "suitable_runs lib v = (case py_int lib v of Inr n \<Rightarrow> 1 \<le> n | Inl e \<Rightarrow> False)"

definition suitable_pause :: "strlib \<Rightarrow> pyval \<Rightarrow> bool" where
  "suitable_pause lib v = (case py_int lib v of Inr n \<Rightarrow> 0 \<le> n | Inl e \<Rightarrow> False)"

definition unsuitable_runs :: "strlib \<Rightarrow> pyval \<Rightarrow> bool" where
  "unsuitable_runs lib v = (case py_int lib v of Inr n \<Rightarrow> n < 1 | Inl e \<Rightarrow> e = ValueError)"

definition unsuitable_pause :: "strlib \<Rightarrow> pyval \<Rightarrow> bool" where
  "unsuitable_pause lib v = (case py_int lib v of Inr n \<Rightarrow> n < 0 | Inl e \<Rightarrow> e = ValueError)"

definition int_like :: "strlib \<Rightarrow> pyval \<Rightarrow> bool" where
  "int_like lib v = (case py_int lib v of Inr n \<Rightarrow> True | Inl e \<Rightarrow> e = ValueError)"

text \<open>
  A well-formed record: both instants are dates of the years 1 to 9999 and the duration
  is their difference. A world is valid when its clock shows such dates only.
\<close>

definition valid_timing :: "timing \<Rightarrow> bool" where
  "valid_timing t \<longleftrightarrow> is_datetime (start t) \<and> is_datetime (finish t) \<and> time t = finish t - start t"

definition valid_world :: "world \<Rightarrow> bool" where
  "valid_world w \<longleftrightarrow>
     (\<forall>i. case w i of Finished s rc f \<Rightarrow> is_datetime s \<and> is_datetime f | Crashed e \<Rightarrow> True)"

text \<open>Output that consists of prints only: no command was started, no pause made.\<close>

definition printed_only :: "event list \<Rightarrow> bool" where
  "printed_only evs \<longleftrightarrow> (\<forall>e \<in> set evs. \<exists>l. e = Print l)"

text \<open>
  A fragment of the Unicode tables, for the samples: \<^verbatim>\<open>t\<close>, dotless \<^verbatim>\<open>i\<close>,
  \<^verbatim>\<open>mes\<close> has the upper-case form \<^verbatim>\<open>TIMES\<close>, and a no-break space before \<^verbatim>\<open>3\<close>
  is the number 3. All other strings of the samples are ASCII.
\<close>

definition dotless_times :: string where
  "dotless_times = [CHR ''t'', CHR 0xC4, CHR 0xB1, CHR ''m'', CHR ''e'', CHR ''s'']"

definition nbsp_three :: string where
  "nbsp_three = [CHR 0xC2, CHR 0xA0, CHR ''3'']"

definition sample_strlib :: strlib where
  "sample_strlib =
     \<lparr>str_upper = (\<lambda>s. if s = dotless_times then ''TIMES'' else s),
      str_int = (\<lambda>s. if s = nbsp_three then Some 3 else None)\<rparr>"

text \<open>
  Sample files, a world in which every run takes a second, and one whose clock shows
  the last day of the year 9999.
\<close>

definition no_files :: filesystem where
  "no_files f = NotAFile"

definition conf_json :: filesystem where
  "conf_json f =
     (if f = ''conf.json''
      then Json (PDict [(''COMMAND'', PStr ''echo b''), (''SECONDS'', PInt 1)])
      else NotAFile)"

definition help_key_json :: filesystem where
  "help_key_json f =
     (if f = ''conf.json'' then Json (PDict [(''COMMAND'', PStr ''true''), (''-h'', PInt 1)])
      else NotAFile)"

definition runs_option_json :: filesystem where
  "runs_option_json f =
     (if f = ''conf.json'' then Json (PDict [(''COMMAND'', PStr ''true''), (''-n'', PInt 3)])
      else NotAFile)"

definition plain_json :: filesystem where
  "plain_json f =
     (if f = ''conf.json'' then Json (PDict [(''COMMAND'', PStr ''true'')]) else NotAFile)"

definition extra_key_json :: filesystem where
  "extra_key_json f =
     (if f = ''conf.json''
      then Json (PDict [(''COMMAND'', PStr ''true''), (''VERBOSE'', PBool True)])
      else NotAFile)"

definition null_times_json :: filesystem where
  "null_times_json f =
     (if f = ''conf.json'' then Json (PDict [(''COMMAND'', PStr ''true''), (''TIMES'', PNone)])
      else NotAFile)"

definition fractional_times_json :: filesystem where
  "fractional_times_json f =
     (if f = ''conf.json''
      then Json (PDict [(''COMMAND'', PStr ''true''), (''TIMES'', PFloat (Finite (7 / 2)))])
      else NotAFile)"

definition negative_pause_json :: filesystem where
  "negative_pause_json f =
     (if f = ''conf.json''
      then Json (PDict [(''COMMAND'', PStr ''true''), (''SECONDS'', PFloat (Finite (- 1 / 2)))])
      else NotAFile)"

definition dotless_times_json :: filesystem where
  "dotless_times_json f =
     (if f = ''conf.json''
      then Json (PDict [(''COMMAND'', PStr ''true''), (dotless_times, PInt 3)])
      else NotAFile)"

definition steady_world :: world where
  "steady_world i =
     Finished (63839664000000000 + 6000000 * int i) 0 (63839664001000000 + 6000000 * int i)"

definition last_day_world :: world where
  "last_day_world i = Finished (MAXYEAR_12_31 + 1000000) 0 (MAXYEAR_12_31 + 2000000)"

section \<open>Facts about the results loop\<close>

lemma timing_loop_Cons:
  assumes "timing_loop (t # ts) acc = Inr acc'"
  shows "\<exists>acc5. timing_loop ts acc5 = Inr acc'
           \<and> error_cnt acc5 = error_cnt acc + (if e_code t \<noteq> 0 then 1 else 0)
           \<and> min_start acc5 = min (min_start acc) (start t)
           \<and> max_finish acc5 = max (max_finish acc) (finish t)
           \<and> min_time acc5 = min (min_time acc) (time t)
           \<and> max_time acc5 = max (max_time acc) (time t)
           \<and> sum_time acc5 = sum_time acc + time t
           \<and> is_timedelta (sum_time acc5)"
  using assms
  by (simp add: Let_def timedelta_add_def timedelta_def split: sum.splits if_splits)
     (auto simp: min_def max_def)

lemma Min_insert_min:
  fixes a x :: int
  assumes "finite S"
  shows "Min (insert (min a x) S) = Min (insert a (insert x S))"
proof (cases "S = {}")
  case True
  then show ?thesis by (simp add: min.commute)
next
  case False
  with assms show ?thesis by (simp add: min.assoc)
qed

lemma Max_insert_max:
  fixes a x :: int
  assumes "finite S"
  shows "Max (insert (max a x) S) = Max (insert a (insert x S))"
proof (cases "S = {}")
  case True
  then show ?thesis by (simp add: max.commute)
next
  case False
  with assms show ?thesis by (simp add: max.assoc)
qed

lemma timing_loop_error_cnt:
  "timing_loop ts acc = Inr acc' \<Longrightarrow>
     error_cnt acc' = error_cnt acc + int (length (filter (\<lambda>t. e_code t \<noteq> 0) ts))"
proof (induction ts arbitrary: acc)
  case Nil
  then show ?case by simp
next
  case (Cons t ts)
  from timing_loop_Cons [OF Cons.prems] obtain acc5 where
    "timing_loop ts acc5 = Inr acc'"
    "error_cnt acc5 = error_cnt acc + (if e_code t \<noteq> 0 then 1 else 0)"
    by blast
  with Cons.IH [of acc5] show ?case by simp
qed

lemma timing_loop_sum_time:
  "timing_loop ts acc = Inr acc' \<Longrightarrow> sum_time acc' = sum_time acc + sum_list (map time ts)"
proof (induction ts arbitrary: acc)
  case Nil
  then show ?case by simp
next
  case (Cons t ts)
  from timing_loop_Cons [OF Cons.prems] obtain acc5 where
    "timing_loop ts acc5 = Inr acc'" "sum_time acc5 = sum_time acc + time t"
    by blast
  with Cons.IH [of acc5] show ?case by simp
qed

lemma timing_loop_min_time:
  "timing_loop ts acc = Inr acc' \<Longrightarrow> min_time acc' = Min (insert (min_time acc) (time ` set ts))"
proof (induction ts arbitrary: acc)
  case Nil
  then show ?case by simp
next
  case (Cons t ts)
  from timing_loop_Cons [OF Cons.prems] obtain acc5 where
    "timing_loop ts acc5 = Inr acc'" "min_time acc5 = min (min_time acc) (time t)"
    by blast
  with Cons.IH [of acc5] show ?case by (simp add: Min_insert_min)
qed

lemma timing_loop_max_time:
  "timing_loop ts acc = Inr acc' \<Longrightarrow> max_time acc' = Max (insert (max_time acc) (time ` set ts))"
proof (induction ts arbitrary: acc)
  case Nil
  then show ?case by simp
next
  case (Cons t ts)
  from timing_loop_Cons [OF Cons.prems] obtain acc5 where
    "timing_loop ts acc5 = Inr acc'" "max_time acc5 = max (max_time acc) (time t)"
    by blast
  with Cons.IH [of acc5] show ?case by (simp add: Max_insert_max)
qed

lemma timing_loop_min_start:
  "timing_loop ts acc = Inr acc' \<Longrightarrow>
     min_start acc' = Min (insert (min_start acc) (start ` set ts))"
proof (induction ts arbitrary: acc)
  case Nil
  then show ?case by simp
next
  case (Cons t ts)
  from timing_loop_Cons [OF Cons.prems] obtain acc5 where
    "timing_loop ts acc5 = Inr acc'" "min_start acc5 = min (min_start acc) (start t)"
    by blast
  with Cons.IH [of acc5] show ?case by (simp add: Min_insert_min)
qed

lemma timing_loop_max_finish:
  "timing_loop ts acc = Inr acc' \<Longrightarrow>
     max_finish acc' = Max (insert (max_finish acc) (finish ` set ts))"
proof (induction ts arbitrary: acc)
  case Nil
  then show ?case by simp
next
  case (Cons t ts)
  from timing_loop_Cons [OF Cons.prems] obtain acc5 where
    "timing_loop ts acc5 = Inr acc'" "max_finish acc5 = max (max_finish acc) (finish t)"
    by blast
  with Cons.IH [of acc5] show ?case by (simp add: Max_insert_max)
qed

text \<open>The loop fails only when the running sum leaves the range of durations.\<close>

lemma timing_loop_returns:
  "\<forall>k \<le> length ts. is_timedelta (sum_time acc + sum_list (map time (take k ts))) \<Longrightarrow>
     \<exists>acc'. timing_loop ts acc = Inr acc'"
proof (induction ts arbitrary: acc)
  case Nil
  then show ?case by simp
next
  case (Cons t ts)
  from Cons.prems have "is_timedelta (sum_time acc + sum_list (map time (take 1 (t # ts))))"
    by (metis One_nat_def Suc_leI length_Cons zero_less_Suc)
  then have 1: "is_timedelta (sum_time acc + time t)" by simp
  have 2: "is_timedelta (sum_time acc + time t + sum_list (map time (take k ts)))"
    if "k \<le> length ts" for k
    using Cons.prems [rule_format, of "Suc k"] that by (simp add: add.assoc)
  show ?case
    using 1 2 Cons.IH
    by (simp add: Let_def timedelta_add_def timedelta_def)
qed

section \<open>Facts about the run loop and the shape of a completed execution\<close>

lemma run_command_Return:
  assumes "run_command w self i = (ev, Return self')"
  shows "runs self' = runs self \<and> pause self' = pause self \<and> mode_prl self' = mode_prl self
           \<and> command self' = command self \<and> length (timings self') = length (timings self)
           \<and> ev = [RunCommand (command self) i]"
  using assms by (auto simp: run_command_def split: run_result.splits if_splits)

lemma run_command_events:
  "run_command w self i = (ev, r) \<Longrightarrow> ev = [RunCommand (command self) i]"
  by (auto simp: run_command_def split: run_result.splits if_splits)

lemma run_loop_Return:
  "run_loop w idxs self = (ev, Return self') \<Longrightarrow>
     runs self' = runs self \<and> pause self' = pause self \<and> mode_prl self' = mode_prl self
       \<and> command self' = command self \<and> length (timings self') = length (timings self)"
proof (induction idxs arbitrary: self ev)
  case Nil
  then show ?case by simp
next
  case (Cons i idxs)
  show ?case
  proof (cases "run_command w self i")
    case (Pair ev1 r1)
    show ?thesis
    proof (cases r1)
      case (Return s1)
      with Pair have frame: "runs s1 = runs self \<and> pause s1 = pause self \<and> mode_prl s1 = mode_prl self
           \<and> command s1 = command self \<and> length (timings s1) = length (timings self)"
        using run_command_Return by blast
      from Cons.prems Pair Return obtain ev2 where "run_loop w idxs s1 = (ev2, Return self')"
        by (auto simp: Let_def split: if_splits prod.splits outcome.splits sum.splits)
      from Cons.IH [OF this] frame show ?thesis by simp
    next
      case (Exits c)
      with Pair Cons.prems obtain ev2 where "mode_prl self" "run_loop w idxs self = (ev2, Return self')"
        by (auto simp: Let_def split: if_splits prod.splits outcome.splits sum.splits)
      from Cons.IH [OF this(2)] show ?thesis by simp
    next
      case (Raises e)
      with Pair Cons.prems obtain ev2 where "mode_prl self" "run_loop w idxs self = (ev2, Return self')"
        by (auto simp: Let_def split: if_splits prod.splits outcome.splits sum.splits)
      from Cons.IH [OF this(2)] show ?thesis by simp
    qed
  qed
qed

lemma run_loop_no_attention:
  "run_loop w idxs self = (ev, r) \<Longrightarrow> Print (Attention k) \<notin> set ev"
proof (induction idxs arbitrary: self ev r)
  case Nil
  then show ?case by simp
next
  case (Cons i idxs)
  obtain ev1 r1 where rc: "run_command w self i = (ev1, r1)" by (cases "run_command w self i")
  then have ev1: "ev1 = [RunCommand (command self) i]" by (rule run_command_events)
  show ?case
    using Cons.prems rc ev1 Cons.IH
    by (auto simp: Let_def split: if_splits prod.splits outcome.splits sum.splits)
qed

lemma execute_Return:
  assumes "execute w self = (ev, Return (self', rep))"
  shows "\<exists>ev1 ev2. run_loop w [0..<nat (runs self)] self = (ev1, Return self')
           \<and> results_processing self' = (ev2, Return rep)
           \<and> ev = [Print (Executing (command self) (runs self) (pause self)),
                    Print (if mode_prl self then InParallelMode else InSequentialMode)]
                  @ ev1 @ (if mode_prl self' then [Print WaitingForThreads, Print Done] else [])
                  @ ev2"
  using assms
  by (auto simp: execute_def Let_def split: prod.splits outcome.splits)

lemma results_processing_Return:
  assumes "results_processing self = (ev, Return rep)"
  shows "\<exists>acc. timing_loop (timings self) initial_results = Inr acc
           \<and> total_time rep = max_finish acc - min_start acc
           \<and> fastest rep = min_time acc
           \<and> slowest rep = max_time acc
           \<and> timedelta_truediv_float (sum_time acc) (runs self) = Inr (average rep)
           \<and> median_of self = Inr (median rep)
           \<and> errors rep = error_cnt acc
           \<and> ev = [Print (TotalTime (total_time rep)), Print (Fastest (fastest rep)),
                   Print (Slowest (slowest rep)), Print (Average (average rep)),
                   Print (Median (median rep))]
                  @ (if errors rep \<noteq> 0 then [Print (Attention (errors rep))] else [])"
  using assms
  by (auto simp: results_processing_def Let_def split: sum.splits)

section \<open>Rounding\<close>

lemma divide_and_round_bounds:
  assumes "0 < b" "b * lo \<le> a" "a \<le> b * hi"
  shows "lo \<le> divide_and_round a b \<and> divide_and_round a b \<le> hi"
proof -
  define q where "q = a div b"
  define r where "r = a mod b"
  have a: "a = b * q + r" by (simp add: q_def r_def)
  have r: "0 \<le> r" "r < b" using assms(1) by (simp_all add: r_def)
  have lo: "lo \<le> q"
  proof (rule ccontr)
    assume "\<not> lo \<le> q"
    then have "q + 1 \<le> lo" by simp
    with assms(1) have "b * (q + 1) \<le> b * lo" by (simp add: mult_left_mono)
    with assms(2) a r show False by (simp add: algebra_simps)
  qed
  have hi: "q \<le> hi"
  proof (rule ccontr)
    assume "\<not> q \<le> hi"
    then have "hi + 1 \<le> q" by simp
    with assms(1) have "b * (hi + 1) \<le> b * q" by (simp add: mult_left_mono)
    with assms(3) a r assms(1) show False by (simp add: algebra_simps)
  qed
  have top: "r = 0" if "q = hi"
    using that assms(3) a r by simp
  show ?thesis
  proof (cases "q = hi")
    case True
    with top lo assms(1) show ?thesis
      unfolding divide_and_round_def Let_def q_def [symmetric] r_def [symmetric] by auto
  next
    case False
    with hi have "q + 1 \<le> hi" by simp
    with lo hi show ?thesis
      unfolding divide_and_round_def Let_def q_def [symmetric] r_def [symmetric] by auto
  qed
qed

lemma divide_and_round_nearest:
  assumes "0 < b"
  shows "\<bar>2 * (b * divide_and_round a b - a)\<bar> \<le> b"
proof -
  have eq: "a = b * (a div b) + a mod b" by simp
  have m: "0 \<le> a mod b" "a mod b < b" using assms by simp_all
  define q where "q = a div b"
  define r where "r = a mod b"
  have a: "a = b * q + r" using eq by (simp add: q_def r_def)
  have "b * (q + 1) - a = b - r" "b * q - a = - r"
    by (simp_all add: a algebra_simps)
  then show ?thesis
    using m assms unfolding divide_and_round_def Let_def q_def [symmetric] r_def [symmetric]
    by (auto simp: abs_if)
qed

lemma divide_and_round_tie:
  assumes "0 < b" "2 * \<bar>b * divide_and_round a b - a\<bar> = b"
  shows "even (divide_and_round a b)"
proof -
  have eq: "a = b * (a div b) + a mod b" by simp
  have m: "0 \<le> a mod b" "a mod b < b" using assms by simp_all
  define q where "q = a div b"
  define r where "r = a mod b"
  have a: "a = b * q + r" using eq by (simp add: q_def r_def)
  have d: "b * (q + 1) - a = b - r" "b * q - a = - r"
    by (simp_all add: a algebra_simps)
  have qm: "q mod 2 = 1 \<longleftrightarrow> odd q" by presburger
  show ?thesis
    using m assms d unfolding divide_and_round_def Let_def q_def [symmetric] r_def [symmetric]
    by (auto simp: abs_if qm split: if_splits)
qed

lemma divide_and_round_two:
  "\<bar>2 * divide_and_round a 2 - a\<bar> \<le> 1
     \<and> (even a \<longrightarrow> 2 * divide_and_round a 2 = a)
     \<and> (odd a \<longrightarrow> even (divide_and_round a 2))"
  unfolding divide_and_round_def Let_def by presburger

lemma sum_list_lower:
  fixes xs :: "int list"
  shows "\<forall>x \<in> set xs. lo \<le> x \<Longrightarrow> int (length xs) * lo \<le> sum_list xs"
  by (induction xs) (auto simp: algebra_simps)

lemma sum_list_upper:
  fixes xs :: "int list"
  shows "\<forall>x \<in> set xs. x \<le> hi \<Longrightarrow> sum_list xs \<le> int (length xs) * hi"
  by (induction xs) (auto simp: algebra_simps)

lemma bit_length_le:
  "0 \<le> n \<Longrightarrow> n < 2 ^ k \<Longrightarrow> bit_length n \<le> k"
proof (induction n arbitrary: k rule: bit_length.induct)
  case (1 n)
  show ?case
  proof (cases "n \<le> 0")
    case True
    then show ?thesis by (simp add: bit_length.simps)
  next
    case False
    then obtain k' where k: "k = Suc k'" using "1.prems" by (cases k) auto
    with "1.prems" have "n div 2 < 2 ^ k'" by auto
    moreover from False have "0 \<le> n div 2" by simp
    ultimately have "bit_length (n div 2) \<le> k'" using "1.IH" False by simp
    with False k show ?thesis by (simp add: bit_length.simps [of n])
  qed
qed

lemma float_ratio_exact:
  assumes "\<bar>n\<bar> \<le> 2 ^ 53"
  shows "float_ratio n = Inr (n, 1)"
proof (cases "\<bar>n\<bar> < 2 ^ 53")
  case True
  then have "bit_length \<bar>n\<bar> \<le> 53" by (intro bit_length_le) simp_all
  then show ?thesis by (simp add: float_ratio_def Let_def)
next
  case False
  with assms have m: "\<bar>n\<bar> = 2 ^ 53" by simp
  have b: "bit_length (2 ^ 53) = 54" by code_simp
  have "(2::int) ^ 53 * 2 < 2 ^ 1024" by simp
  moreover have "sgn n * \<bar>n\<bar> = n" by (rule mult_sgn_abs)
  ultimately show ?thesis
    using m b by (simp add: float_ratio_def Let_def)
qed

section \<open>The figures of the summary\<close>

lemma getitem_nonneg:
  "0 \<le> i \<Longrightarrow> nat i < length xs \<Longrightarrow> getitem xs i = Inr (xs ! nat i)"
  by (auto simp: getitem_def Let_def)

lemma getitem_NOT:
  "0 \<le> i \<Longrightarrow> nat i < length xs \<Longrightarrow> getitem xs (NOT i) = Inr (xs ! (length xs - 1 - nat i))"
proof -
  assume a: "0 \<le> i" "nat i < length xs"
  have "nat (int (length xs) + (- i - 1)) = length xs - 1 - nat i" using a by linarith
  with a show ?thesis by (auto simp: getitem_def Let_def not_int_def)
qed

lemma median_of_value:
  assumes len: "length (timings self) = nat (runs self)" and pos: "1 \<le> runs self"
      and med: "median_of self = Inr m"
      and ds: "ds = sort (map time (timings self))" and n: "n = length ds" and mid: "mid = n div 2"
  shows "m = divide_and_round (ds ! mid + ds ! (n - 1 - mid)) 2"
proof -
  have nn: "n = nat (runs self)" using len ds n by simp
  have m1: "nat (runs self div 2) = mid"
    using nn mid pos by (simp add: nat_div_distrib)
  have lt: "mid < length ds" using nn mid n pos by simp
  have g1: "getitem ds (runs self div 2) = Inr (ds ! mid)"
    using getitem_nonneg [of "runs self div 2" ds] m1 lt pos by simp
  have g2: "getitem ds (NOT (runs self div 2)) = Inr (ds ! (n - 1 - mid))"
    using getitem_NOT [of "runs self div 2" ds] m1 lt pos n by simp
  from med show ?thesis
    unfolding median_of_def Let_def ds [symmetric] g1 g2
    by (auto simp: timedelta_add_def timedelta_mul_half_def timedelta_def split: if_splits)
qed

lemma Min_insert_bound:
  fixes S :: "int set"
  assumes "finite S" "S \<noteq> {}" "\<forall>x \<in> S. x \<le> b"
  shows "Min (insert b S) = Min S"
proof -
  from assms have "Min S \<le> b" by (meson Min_in Min_le order_trans)
  with assms show ?thesis by (simp add: min_absorb2)
qed

lemma Max_insert_bound:
  fixes S :: "int set"
  assumes "finite S" "S \<noteq> {}" "\<forall>x \<in> S. b \<le> x"
  shows "Max (insert b S) = Max S"
proof -
  from assms have "b \<le> Max S" by (meson Max_in Max_ge order_trans)
  with assms show ?thesis by (simp add: max_absorb2)
qed

lemma fastest_slowest:
  assumes rp: "results_processing self = (ev, Return rep)"
      and ne: "timings self \<noteq> []"
      and td: "\<forall>t \<in> set (timings self). is_timedelta (time t)"
  shows "fastest rep = Min (time ` set (timings self))"
    and "slowest rep = Max (time ` set (timings self))"
proof -
  from results_processing_Return [OF rp] obtain acc where
    acc: "timing_loop (timings self) initial_results = Inr acc"
    and f: "fastest rep = min_time acc" and s: "slowest rep = max_time acc"
    by blast
  have fin: "finite (time ` set (timings self))" "time ` set (timings self) \<noteq> {}"
    using ne by simp_all
  have "\<forall>x \<in> time ` set (timings self). x \<le> TIMEDELTA_MAX"
    using td by (auto simp: is_timedelta_def)
  from Min_insert_bound [OF fin this] timing_loop_min_time [OF acc] f
  show "fastest rep = Min (time ` set (timings self))"
    by (simp add: initial_results_def)
  have "\<forall>x \<in> time ` set (timings self). TIMEDELTA_MIN \<le> x"
    using td by (auto simp: is_timedelta_def)
  from Max_insert_bound [OF fin this] timing_loop_max_time [OF acc] s
  show "slowest rep = Max (time ` set (timings self))"
    by (simp add: initial_results_def)
qed

lemma average_value:
  assumes rp: "results_processing self = (ev, Return rep)"
      and pos: "1 \<le> runs self" and small: "runs self \<le> 2 ^ 53"
  shows "average rep = divide_and_round (sum_list (map time (timings self))) (runs self)"
proof -
  from results_processing_Return [OF rp] obtain acc where
    acc: "timing_loop (timings self) initial_results = Inr acc"
    and avg: "timedelta_truediv_float (sum_time acc) (runs self) = Inr (average rep)"
    by blast
  have fr: "float_ratio (runs self) = Inr (runs self, 1)"
    using pos small by (intro float_ratio_exact) simp
  have "sum_time acc = sum_list (map time (timings self))"
    using timing_loop_sum_time [OF acc] by (simp add: initial_results_def)
  with avg fr pos show ?thesis
    by (auto simp: timedelta_truediv_float_def timedelta_def split: if_splits)
qed

lemma example_execute:
  "execute example_world example_script = (example_events, Return (example_final, example_report))"
  by code_simp

lemma example_final_times: "map time (timings example_final) = [1001, 1002]"
  by (simp add: example_final_def)

lemma example_script_facts:
  "length (timings example_script) = nat (runs example_script)"
  "1 \<le> runs example_script" "runs example_script \<le> 2 ^ 53"
  by (simp_all add: example_script_def)

lemma example_final_valid: "\<forall>t \<in> set (timings example_final). is_timedelta (time t)"
  by (simp add: example_final_def is_timedelta_def TIMEDELTA_MIN_def TIMEDELTA_MAX_def)

section \<open>Facts about the option loop\<close>

text \<open>No key belongs to two branches of the \<^verbatim>\<open>elif\<close> chain.\<close>

lemma upper_short_options:
  "upper lib ''-c'' = ''-C''" "upper lib ''-n'' = ''-N''" "upper lib ''-w'' = ''-W''"
  "upper lib ''-p'' = ''-P''" "upper lib ''-h'' = ''-H''" "upper lib ''--help'' = ''--HELP''"
  by code_simp+

lemma help_key_only:
  "is_help_key opt \<Longrightarrow>
     \<not> is_command_key lib opt \<and> \<not> is_runs_key lib opt \<and> \<not> is_pause_key lib opt \<and> \<not> is_parallel_key lib opt"
  by (auto simp: is_help_key_def is_command_key_def is_runs_key_def is_pause_key_def
        is_parallel_key_def upper_short_options)

lemma parallel_key_only:
  "is_parallel_key lib opt \<Longrightarrow> \<not> is_command_key lib opt \<and> \<not> is_runs_key lib opt \<and> \<not> is_pause_key lib opt"
  by (auto simp: is_command_key_def is_runs_key_def is_pause_key_def
        is_parallel_key_def upper_short_options)

lemma pause_key_only:
  "is_pause_key lib opt \<Longrightarrow> \<not> is_command_key lib opt \<and> \<not> is_runs_key lib opt"
  by (auto simp: is_command_key_def is_runs_key_def is_pause_key_def upper_short_options)

lemma runs_key_only:
  "is_runs_key lib opt \<Longrightarrow> \<not> is_command_key lib opt"
  by (auto simp: is_command_key_def is_runs_key_def upper_short_options)

text \<open>The loop keeps the numbers valid, and an unknown key changes nothing.\<close>

lemma initial_valid: "valid_numbers initial_script"
  by (simp add: valid_numbers_def initial_script_def DEFAULT_RUNS_def DEFAULT_PAUSE_def)

lemma apply_option_valid:
  "apply_option lib self ov = (out, Return self') \<Longrightarrow> valid_numbers self'"
  by (auto simp: apply_option_def Let_def valid_numbers_def
        split: if_splits sum.splits prod.splits outcome.splits)

lemma apply_option_help:
  "is_help_key (fst ov) \<Longrightarrow> apply_option lib self ov = ([Print HelpText], Exits 0)"
  using help_key_only [of "fst ov" lib] by (simp add: apply_option_def Let_def)

lemma apply_option_unrecognized:
  "\<not> recognized_key lib (fst ov) \<Longrightarrow> valid_numbers self \<Longrightarrow>
     apply_option lib self ov = ([], Return self)"
  by (auto simp: apply_option_def Let_def recognized_key_def valid_numbers_def)

text \<open>An entry that is no help request either passes or raises; it prints nothing.\<close>

lemma apply_option_suitable:
  assumes "valid_numbers self" "\<not> is_help_key (fst ov)"
      and "is_runs_key lib (fst ov) \<Longrightarrow> suitable_runs lib (snd ov)"
      and "is_pause_key lib (fst ov) \<Longrightarrow> suitable_pause lib (snd ov)"
  shows "\<exists>self'. apply_option lib self ov = ([], Return self') \<and> valid_numbers self'"
  using assms pause_key_only [of lib "fst ov"]
  by (auto simp: apply_option_def Let_def valid_numbers_def suitable_runs_def suitable_pause_def
        split: sum.splits)

lemma apply_option_unsuitable:
  assumes "valid_numbers self"
      and "(is_runs_key lib (fst ov) \<and> unsuitable_runs lib (snd ov))
             \<or> (is_pause_key lib (fst ov) \<and> unsuitable_pause lib (snd ov))"
  shows "apply_option lib self ov = ([], Raises ValueError)"
  using assms pause_key_only [of lib "fst ov"] runs_key_only [of lib "fst ov"]
  by (auto simp: apply_option_def Let_def valid_numbers_def unsuitable_runs_def
        unsuitable_pause_def split: sum.splits)

lemma apply_option_int_like:
  assumes "valid_numbers self" "\<not> is_help_key (fst ov)"
      and "is_runs_key lib (fst ov) \<or> is_pause_key lib (fst ov) \<Longrightarrow> int_like lib (snd ov)"
  shows "(\<exists>self'. apply_option lib self ov = ([], Return self') \<and> valid_numbers self')
           \<or> apply_option lib self ov = ([], Raises ValueError)"
  using assms
  by (auto simp: apply_option_def Let_def valid_numbers_def int_like_def split: sum.splits)

lemma options_loop_valid:
  "options_loop lib opts self = (out, Return self') \<Longrightarrow> valid_numbers self \<Longrightarrow> valid_numbers self'"
proof (induction opts arbitrary: self out)
  case Nil
  then show ?case by simp
next
  case (Cons ov opts)
  from Cons.prems(1) obtain out1 s1 out2 where
    1: "apply_option lib self ov = (out1, Return s1)" and 2: "options_loop lib opts s1 = (out2, Return self')"
    by (auto split: prod.splits outcome.splits)
  from apply_option_valid [OF 1] Cons.IH [OF 2] show ?case by simp
qed

lemma options_loop_filter:
  "valid_numbers self \<Longrightarrow>
     options_loop lib (filter (\<lambda>ov. recognized_key lib (fst ov)) opts) self = options_loop lib opts self"
proof (induction opts arbitrary: self)
  case Nil
  then show ?case by simp
next
  case (Cons ov opts)
  show ?case
  proof (cases "recognized_key lib (fst ov)")
    case False
    with Cons show ?thesis by (simp add: apply_option_unrecognized)
  next
    case True
    obtain out r where a: "apply_option lib self ov = (out, r)" by (cases "apply_option lib self ov")
    show ?thesis
    proof (cases r)
      case (Return s1)
      with a have "valid_numbers s1" using apply_option_valid by blast
      with Cons.IH [of s1] True a Return show ?thesis by simp
    next
      case (Exits c)
      with True a show ?thesis by simp
    next
      case (Raises e)
      with True a show ?thesis by simp
    qed
  qed
qed

text \<open>The first help request ends the loop, if the entries before it are suitable.\<close>

lemma options_loop_help:
  assumes "valid_numbers self" "is_help_key (fst hv)"
      and "\<forall>ov \<in> set pre. (is_runs_key lib (fst ov) \<longrightarrow> suitable_runs lib (snd ov))
                            \<and> (is_pause_key lib (fst ov) \<longrightarrow> suitable_pause lib (snd ov))"
  shows "options_loop lib (pre @ hv # post) self = ([Print HelpText], Exits 0)"
  using assms
proof (induction pre arbitrary: self)
  case Nil
  then show ?case by (simp add: apply_option_help)
next
  case (Cons ov pre)
  show ?case
  proof (cases "is_help_key (fst ov)")
    case True
    then show ?thesis by (simp add: apply_option_help)
  next
    case False
    with Cons.prems apply_option_suitable [where self = self and ov = ov and lib = lib] obtain s1 where
      "apply_option lib self ov = ([], Return s1)" "valid_numbers s1" by auto
    with Cons.IH [of s1] Cons.prems show ?thesis by simp
  qed
qed

text \<open>The first unsuitable number ends the loop with a \<^verbatim>\<open>ValueError\<close>.\<close>

lemma options_loop_unsuitable:
  assumes "valid_numbers self"
      and "(is_runs_key lib (fst bad) \<and> unsuitable_runs lib (snd bad))
             \<or> (is_pause_key lib (fst bad) \<and> unsuitable_pause lib (snd bad))"
      and "\<forall>ov \<in> set pre. \<not> is_help_key (fst ov)
             \<and> (is_runs_key lib (fst ov) \<or> is_pause_key lib (fst ov) \<longrightarrow> int_like lib (snd ov))"
  shows "options_loop lib (pre @ bad # post) self = ([], Raises ValueError)"
  using assms
proof (induction pre arbitrary: self)
  case Nil
  then show ?case by (simp add: apply_option_unsuitable)
next
  case (Cons ov pre)
  from Cons.prems apply_option_int_like [where self = self and ov = ov and lib = lib]
  consider s1 where "apply_option lib self ov = ([], Return s1)" "valid_numbers s1"
    | "apply_option lib self ov = ([], Raises ValueError)"
    by auto
  then show ?case
  proof cases
    case 1
    with Cons.IH [of s1] Cons.prems show ?thesis by simp
  next
    case 2
    then show ?thesis by simp
  qed
qed

text \<open>What the loop leaves alone.\<close>

lemma apply_option_kept:
  assumes "apply_option lib self ov = (out, Return self')"
  shows "(\<not> is_runs_key lib (fst ov) \<longrightarrow> runs self' = runs self)
           \<and> (\<not> is_pause_key lib (fst ov) \<longrightarrow> pause self' = pause self)
           \<and> (mode_prl self' \<longleftrightarrow> mode_prl self \<or> is_parallel_key lib (fst ov))
           \<and> (\<not> is_command_key lib (fst ov) \<longrightarrow> command self' = command self)
           \<and> timings self' = timings self"
  using assms parallel_key_only [of lib "fst ov"]
  by (auto simp: apply_option_def Let_def split: if_splits sum.splits)

lemma options_loop_kept:
  "options_loop lib opts self = (out, Return self') \<Longrightarrow>
     ((\<forall>ov \<in> set opts. \<not> is_runs_key lib (fst ov)) \<longrightarrow> runs self' = runs self)
       \<and> ((\<forall>ov \<in> set opts. \<not> is_pause_key lib (fst ov)) \<longrightarrow> pause self' = pause self)
       \<and> (mode_prl self' \<longleftrightarrow> mode_prl self \<or> (\<exists>ov \<in> set opts. is_parallel_key lib (fst ov)))
       \<and> ((\<forall>ov \<in> set opts. \<not> is_command_key lib (fst ov)) \<longrightarrow> command self' = command self)
       \<and> timings self' = timings self"
proof (induction opts arbitrary: self out)
  case Nil
  then show ?case by simp
next
  case (Cons ov opts)
  from Cons.prems obtain out1 s1 out2 where
    1: "apply_option lib self ov = (out1, Return s1)" and 2: "options_loop lib opts s1 = (out2, Return self')"
    by (auto split: prod.splits outcome.splits)
  from apply_option_kept [OF 1] Cons.IH [OF 2] show ?case by auto
qed

lemma options_loop_command:
  "options_loop lib opts self = (out, Return self') \<Longrightarrow>
     command self' = command self
       \<or> (\<exists>ov \<in> set opts. is_command_key lib (fst ov) \<and> command self' = snd ov)"
proof (induction opts arbitrary: self out)
  case Nil
  then show ?case by simp
next
  case (Cons ov opts)
  from Cons.prems obtain out1 s1 out2 where
    1: "apply_option lib self ov = (out1, Return s1)" and 2: "options_loop lib opts s1 = (out2, Return self')"
    by (auto split: prod.splits outcome.splits)
  from 1 have "command s1 = command self \<or> (is_command_key lib (fst ov) \<and> command s1 = snd ov)"
    by (auto simp: apply_option_def Let_def split: if_splits sum.splits)
  with Cons.IH [OF 2] show ?case by auto
qed

text \<open>What the loop assigns: the last value of each kind decides.\<close>

lemma apply_option_assigns:
  assumes "apply_option lib self ov = (out, Return self')"
  shows "(if is_command_key lib (fst ov) then command self' = snd ov
          else command self' = command self)
           \<and> (if is_runs_key lib (fst ov) then py_int lib (snd ov) = Inr (runs self')
                else runs self' = runs self)
           \<and> (if is_pause_key lib (fst ov) then py_int lib (snd ov) = Inr (pause self')
                else pause self' = pause self)"
  using assms runs_key_only [of lib "fst ov"] pause_key_only [of lib "fst ov"]
  by (auto simp: apply_option_def Let_def split: if_splits sum.splits)

lemma options_loop_last:
  "options_loop lib opts self = (out, Return self') \<Longrightarrow>
     (case last_value (is_command_key lib) opts of
        None \<Rightarrow> command self' = command self
      | Some v \<Rightarrow> command self' = v)
       \<and> (case last_value (is_runs_key lib) opts of
             None \<Rightarrow> runs self' = runs self
           | Some v \<Rightarrow> py_int lib v = Inr (runs self'))
       \<and> (case last_value (is_pause_key lib) opts of
             None \<Rightarrow> pause self' = pause self
           | Some v \<Rightarrow> py_int lib v = Inr (pause self'))"
proof (induction opts arbitrary: self out)
  case Nil
  then show ?case by simp
next
  case (Cons ov opts)
  from Cons.prems obtain out1 s1 out2 where
    1: "apply_option lib self ov = (out1, Return s1)"
    and 2: "options_loop lib opts s1 = (out2, Return self')"
    by (auto split: prod.splits outcome.splits)
  obtain k v where ov: "ov = (k, v)" by (cases ov)
  from apply_option_assigns [OF 1] Cons.IH [OF 2] show ?case
    unfolding ov by (auto split: option.splits if_splits)
qed

lemma options_loop_prints_nothing:
  "options_loop lib opts self = (out, Return self') \<Longrightarrow> out = []"
proof (induction opts arbitrary: self out)
  case Nil
  then show ?case by simp
next
  case (Cons ov opts)
  from Cons.prems obtain out1 s1 out2 where
    1: "apply_option lib self ov = (out1, Return s1)" and 2: "options_loop lib opts s1 = (out2, Return self')"
    and o: "out = out1 @ out2"
    by (auto split: prod.splits outcome.splits)
  from 1 have "out1 = []"
    by (auto simp: apply_option_def Let_def split: if_splits sum.splits)
  with Cons.IH [OF 2] o show ?case by simp
qed

section \<open>Facts about \<^verbatim>\<open>__init__\<close> and the main program\<close>

lemma try_body_file:
  assumes "getopt argv ''c:n:w:ph'' [''help''] = Inr (opts, filename # rest)"
      and "fs filename = Json (PDict kvs)"
  shows "try_body lib fs argv self = options_loop lib kvs self"
  using assms by (simp add: try_body_def load_opts_def split: prod.splits)

lemma try_body_options:
  assumes "getopt argv ''c:n:w:ph'' [''help''] = Inr (opts, args)"
      and "load_opts fs opts args = ([], Return eff)" and "eff \<noteq> []"
  shows "try_body lib fs argv self = options_loop lib eff self"
proof -
  have "\<not> (opts = [] \<and> args = [])"
    using assms(2,3) by (auto simp: load_opts_def)
  with assms show ?thesis by (auto simp: try_body_def split: prod.splits)
qed

lemma getopt_file_only: "getopt [''--'', filename] shortopts longopts = Inr ([], [filename])"
  by (simp add: getopt_def)

lemma try_body_not_object:
  assumes "getopt argv ''c:n:w:ph'' [''help''] = Inr (opts, filename # rest)"
      and "fs filename = Json json_data" and "\<forall>kvs. json_data \<noteq> PDict kvs"
  shows "try_body lib fs argv self = ([], Raises AttributeError)"
  using assms by (cases json_data) (simp_all add: try_body_def load_opts_def)

lemma try_body_positional:
  assumes "getopt argv ''c:n:w:ph'' [''help''] = Inr (opts, filename # rest)"
  shows "try_body lib fs argv self = try_body lib fs [''--'', filename] self"
  using assms by (simp add: try_body_def getopt_file_only load_opts_def)

lemma SPscript_init_ValueError:
  "try_body lib fs argv initial_script = ([], Raises ValueError) \<Longrightarrow>
     SPscript_init lib fs argv = ([Print BadIntegers], Exits 2)"
  by (simp add: SPscript_init_def)

lemma SPscript_init_Exits:
  "try_body lib fs argv initial_script = (out, Exits c) \<Longrightarrow> SPscript_init lib fs argv = (out, Exits c)"
  by (simp add: SPscript_init_def)

lemma SPscript_init_Return:
  assumes "SPscript_init lib fs argv = (out, Return self)"
  shows "\<exists>self'. try_body lib fs argv initial_script = (out, Return self') \<and> truthy (command self')
           \<and> self = self'\<lparr>timings := replicate (nat (runs self')) blank_timing\<rparr>"
proof -
  obtain o1 r1 where tb: "try_body lib fs argv initial_script = (o1, r1)"
    by (cases "try_body lib fs argv initial_script")
  show ?thesis
  proof (cases r1)
    case (Return s1)
    with tb assms show ?thesis
      by (auto simp: SPscript_init_def no_command_def split: if_splits)
  next
    case (Exits c)
    with tb assms show ?thesis by (simp add: SPscript_init_def)
  next
    case (Raises e)
    with tb assms show ?thesis by (cases e) (simp_all add: SPscript_init_def)
  qed
qed

lemma main_Exits:
  "SPscript_init lib fs argv = (out, Exits c) \<Longrightarrow> main lib fs w argv = (out, c)"
  by (simp add: main_def)

text \<open>Before \<^verbatim>\<open>execute\<close> is called the script only prints.\<close>

lemma printed_only_commands_run: "printed_only evs \<Longrightarrow> commands_run evs = 0"
  by (auto simp: printed_only_def commands_run_def filter_empty_conv)

lemma apply_option_printed: "apply_option lib self ov = (out, r) \<Longrightarrow> out = [] \<or> out = [Print HelpText]"
  by (auto simp: apply_option_def Let_def split: if_splits sum.splits)

lemma apply_option_exit_code: "apply_option lib self ov = (out, Exits c) \<Longrightarrow> c = 0"
  by (auto simp: apply_option_def Let_def split: if_splits sum.splits)

lemma options_loop_printed: "options_loop lib opts self = (out, r) \<Longrightarrow> printed_only out"
proof (induction opts arbitrary: self out r)
  case Nil
  then show ?case by (simp add: printed_only_def)
next
  case (Cons ov opts)
  obtain o1 r1 where a: "apply_option lib self ov = (o1, r1)" by (cases "apply_option lib self ov")
  from apply_option_printed [OF a] have p1: "printed_only o1" by (auto simp: printed_only_def)
  show ?case
  proof (cases r1)
    case (Return s1)
    obtain o2 r2 where l: "options_loop lib opts s1 = (o2, r2)" by (cases "options_loop lib opts s1")
    from Cons.IH [OF l] p1 Cons.prems a Return l show ?thesis
      by (auto simp: printed_only_def)
  next
    case (Exits c)
    with a Cons.prems p1 show ?thesis by auto
  next
    case (Raises e)
    with a Cons.prems p1 show ?thesis by auto
  qed
qed

lemma options_loop_exit_code: "options_loop lib opts self = (out, Exits c) \<Longrightarrow> c = 0"
proof (induction opts arbitrary: self out)
  case Nil
  then show ?case by simp
next
  case (Cons ov opts)
  obtain o1 r1 where a: "apply_option lib self ov = (o1, r1)" by (cases "apply_option lib self ov")
  show ?case
  proof (cases r1)
    case (Return s1)
    with a Cons.prems obtain o2 where "options_loop lib opts s1 = (o2, Exits c)"
      by (auto split: prod.splits)
    then show ?thesis by (rule Cons.IH)
  next
    case (Exits c')
    with a Cons.prems apply_option_exit_code [of lib self ov o1 c'] show ?thesis by auto
  next
    case (Raises e)
    with a Cons.prems show ?thesis by auto
  qed
qed

lemma try_body_printed: "try_body lib fs argv self = (out, r) \<Longrightarrow> printed_only out"
  by (auto simp: try_body_def load_opts_def no_command_def printed_only_def
        split: sum.splits prod.splits if_splits list.splits file_state.splits outcome.splits
        dest!: options_loop_printed)

lemma try_body_exit_code: "try_body lib fs argv self = (out, Exits c) \<Longrightarrow> c = 0 \<or> c = 2"
  by (auto simp: try_body_def load_opts_def no_command_def
        split: sum.splits prod.splits if_splits list.splits file_state.splits outcome.splits
        dest: options_loop_exit_code)

lemma SPscript_init_printed: "SPscript_init lib fs argv = (out, r) \<Longrightarrow> printed_only out"
proof -
  assume a: "SPscript_init lib fs argv = (out, r)"
  obtain o1 r1 where tb: "try_body lib fs argv initial_script = (o1, r1)"
    by (cases "try_body lib fs argv initial_script")
  from try_body_printed [OF tb] have p: "printed_only o1" .
  show ?thesis
  proof (cases r1)
    case (Return s1)
    with a tb p show ?thesis
      by (auto simp: SPscript_init_def no_command_def printed_only_def split: if_splits)
  next
    case (Exits c)
    with a tb p show ?thesis by (auto simp: SPscript_init_def)
  next
    case (Raises e)
    with a tb p show ?thesis
      by (cases e) (auto simp: SPscript_init_def printed_only_def)
  qed
qed

lemma SPscript_init_exit_code: "SPscript_init lib fs argv = (out, Exits c) \<Longrightarrow> c = 0 \<or> c = 2"
proof -
  assume a: "SPscript_init lib fs argv = (out, Exits c)"
  obtain o1 r1 where tb: "try_body lib fs argv initial_script = (o1, r1)"
    by (cases "try_body lib fs argv initial_script")
  show ?thesis
  proof (cases r1)
    case (Return s1)
    with a tb show ?thesis
      by (auto simp: SPscript_init_def no_command_def split: if_splits)
  next
    case (Exits c')
    with a tb try_body_exit_code [of lib fs argv initial_script o1 c'] show ?thesis
      by (auto simp: SPscript_init_def)
  next
    case (Raises e)
    with a tb show ?thesis
      by (cases e) (auto simp: SPscript_init_def)
  qed
qed

text \<open>
  Whenever \<^verbatim>\<open>__init__\<close> ends the process, nothing but prints has happened, and the
  status is 0 (after the usage text) or 2.
\<close>

lemma configuration_exit:
  assumes "SPscript_init lib fs argv = (out, Exits c)"
  shows "main lib fs w argv = (out, c) \<and> commands_run out = 0 \<and> (c = 0 \<or> c = 2)"
  using assms SPscript_init_printed [OF assms] SPscript_init_exit_code [OF assms]
  by (simp add: main_def printed_only_commands_run)

lemma execute_never_exits: "execute w self \<noteq> (ev, Exits c)"
proof
  assume a: "execute w self = (ev, Exits c)"
  have rl: "run_loop w idxs s \<noteq> (e, Exits c)" for idxs s e
  proof (induction idxs arbitrary: s e)
    case Nil
    then show ?case by simp
  next
    case (Cons i idxs)
    show ?case
      using Cons.IH
      by (auto simp: Let_def run_command_def
            split: if_splits prod.splits outcome.splits sum.splits run_result.splits)
  qed
  have rp: "results_processing s \<noteq> (e, Exits c)" for s e
    by (auto simp: results_processing_def Let_def split: sum.splits)
  from a rl rp show False
    by (auto simp: execute_def Let_def split: prod.splits outcome.splits)
qed

lemma main_exit_status: "snd (main lib fs w argv) \<in> {0, 1, 2}"
proof -
  obtain o1 r1 where i: "SPscript_init lib fs argv = (o1, r1)" by (cases "SPscript_init lib fs argv")
  show ?thesis
  proof (cases r1)
    case (Return s1)
    obtain o2 r2 where e: "execute w s1 = (o2, r2)" by (cases "execute w s1")
    with i Return execute_never_exits [of w s1 o2] show ?thesis
      by (cases r2) (auto simp: main_def)
  next
    case (Exits c)
    with i SPscript_init_exit_code [of lib fs argv o1 c] show ?thesis by (auto simp: main_def)
  next
    case (Raises e)
    with i show ?thesis by (simp add: main_def)
  qed
qed

text \<open>
  The configuration errors that the script reports with status 2. A file that is
  named but missing, unreadable or not JSON is one of them: the script does not fall
  back on the options of the command line, though its help text says that otherwise
  the command line parameters are used.
\<close>

lemma option_syntax_error:
  "getopt argv ''c:n:w:ph'' [''help''] = Inl e \<Longrightarrow>
     main lib fs w argv = ([Print (GetoptErrorAndHelp e)], 2)"
  by (simp add: main_def SPscript_init_def try_body_def)

lemma no_arguments: "main lib fs w [] = ([Print NoCommandAndHelp], 2)"
  by (simp add: main_def SPscript_init_def try_body_def getopt_def no_command_def)

lemma bad_file:
  assumes "getopt argv ''c:n:w:ph'' [''help''] = Inr (opts, filename # rest)"
  shows "fs filename = NotAFile \<Longrightarrow> main lib fs w argv = ([Print (FileNotFound filename)], 2)"
    and "fs filename = ReadFails \<Longrightarrow> main lib fs w argv = ([Print (FileReadError filename)], 2)"
    and "fs filename = BadJson \<Longrightarrow> main lib fs w argv = ([Print (JsonParseError filename)], 2)"
  using assms by (simp_all add: main_def SPscript_init_def try_body_def load_opts_def)

lemma missing_command:
  assumes "try_body lib fs argv initial_script = (out, Return self)" "\<not> truthy (command self)"
  shows "main lib fs w argv = (out @ [Print NoCommandAndHelp], 2)"
  using assms by (simp add: main_def SPscript_init_def no_command_def)

text \<open>What \<^verbatim>\<open>__init__\<close> hands to \<^verbatim>\<open>execute\<close>, and what \<^verbatim>\<open>execute\<close> makes of it.\<close>

lemma valid_timing_timedelta: "valid_timing t \<Longrightarrow> is_timedelta (time t)"
  by (simp add: valid_timing_def is_datetime_def is_timedelta_def DATETIME_MIN_def
        DATETIME_MAX_def TIMEDELTA_MIN_def TIMEDELTA_MAX_def)

lemma blank_timing_valid: "valid_timing blank_timing"
  by (simp add: valid_timing_def blank_timing_def TIME_NONE_def is_datetime_def
        DATETIME_MIN_def DATETIME_MAX_def)

lemma run_command_valid:
  assumes "run_command w self i = (ev, Return self')" "valid_world w"
      and "\<forall>t \<in> set (timings self). valid_timing t"
  shows "\<forall>t \<in> set (timings self'). valid_timing t"
proof -
  from assms(1) obtain s rc f where
    wi: "w i = Finished s rc f"
    and t': "timings self' = (timings self)[i := \<lparr>e_code = rc, start = s, finish = f, time = f - s\<rparr>]"
    by (auto simp: run_command_def split: run_result.splits if_splits)
  from assms(2) wi have "is_datetime s \<and> is_datetime f"
    by (auto simp: valid_world_def split: run_result.splits dest: spec [of _ i])
  then have "valid_timing \<lparr>e_code = rc, start = s, finish = f, time = f - s\<rparr>"
    by (simp add: valid_timing_def)
  with assms(3) show ?thesis
    unfolding t' using set_update_subset_insert by fastforce
qed

lemma run_loop_valid:
  "run_loop w idxs self = (ev, Return self') \<Longrightarrow> valid_world w \<Longrightarrow>
     \<forall>t \<in> set (timings self). valid_timing t \<Longrightarrow> \<forall>t \<in> set (timings self'). valid_timing t"
proof (induction idxs arbitrary: self ev)
  case Nil
  then show ?case by simp
next
  case (Cons i idxs)
  obtain ev1 r1 where rc: "run_command w self i = (ev1, r1)" by (cases "run_command w self i")
  show ?case
  proof (cases r1)
    case (Return s1)
    with rc Cons.prems have v1: "\<forall>t \<in> set (timings s1). valid_timing t"
      using run_command_valid by blast
    from Cons.prems(1) rc Return obtain ev2 where "run_loop w idxs s1 = (ev2, Return self')"
      by (auto simp: Let_def split: if_splits prod.splits outcome.splits sum.splits)
    from Cons.IH [OF this Cons.prems(2) v1] show ?thesis .
  next
    case (Exits c)
    with rc Cons.prems(1) obtain ev2 where "run_loop w idxs self = (ev2, Return self')"
      by (auto simp: Let_def split: if_splits prod.splits outcome.splits sum.splits)
    from Cons.IH [OF this Cons.prems(2,3)] show ?thesis .
  next
    case (Raises e)
    with rc Cons.prems(1) obtain ev2 where "run_loop w idxs self = (ev2, Return self')"
      by (auto simp: Let_def split: if_splits prod.splits outcome.splits sum.splits)
    from Cons.IH [OF this Cons.prems(2,3)] show ?thesis .
  qed
qed

lemma SPscript_init_establishes:
  assumes "SPscript_init lib fs argv = (out, Return self)"
  shows "length (timings self) = nat (runs self) \<and> 1 \<le> runs self \<and> 0 \<le> pause self
           \<and> truthy (command self) \<and> (\<forall>t \<in> set (timings self). valid_timing t)"
proof -
  from SPscript_init_Return [OF assms] obtain s1 where
    tb: "try_body lib fs argv initial_script = (out, Return s1)" and tr: "truthy (command s1)"
    and self: "self = s1\<lparr>timings := replicate (nat (runs s1)) blank_timing\<rparr>"
    by blast
  have "valid_numbers s1"
  proof -
    from tb obtain eff o2 where "options_loop lib eff initial_script = (o2, Return s1)"
      by (auto simp: try_body_def no_command_def
            split: sum.splits prod.splits if_splits outcome.splits)
    from options_loop_valid [OF this initial_valid] show ?thesis .
  qed
  with tr self show ?thesis
    by (simp add: valid_numbers_def blank_timing_valid)
qed

text \<open>
  So a completed execution that follows \<^verbatim>\<open>__init__\<close>, in a world whose clock shows
  dates of the years 1 to 9999, ends with well-formed records, one per run.
\<close>

lemma completed_records:
  assumes "SPscript_init lib fs argv = (out, Return self)"
      and "execute w self = (ev, Return (self', rep))"
      and "valid_world w"
  shows "length (timings self') = nat (runs self') \<and> 1 \<le> runs self'
           \<and> (\<forall>t \<in> set (timings self'). valid_timing t)"
proof -
  from execute_Return [OF assms(2)] obtain ev1 where
    rl: "run_loop w [0..<nat (runs self)] self = (ev1, Return self')"
    by blast
  from SPscript_init_establishes [OF assms(1)] run_loop_Return [OF rl]
    run_loop_valid [OF rl assms(3)]
  show ?thesis by simp
qed

text \<open>Sample keys and values.\<close>

lemma sample_keys:
  "is_help_key ''-h''" "is_help_key ''--help''" "is_runs_key lib ''-n''" "is_pause_key lib ''-w''"
  "\<not> is_help_key ''-c''" "\<not> is_runs_key lib ''-c''" "\<not> is_pause_key lib ''-c''"
  "\<not> is_help_key ''-p''" "\<not> is_runs_key lib ''-p''" "\<not> is_pause_key lib ''-p''"
  "\<not> is_help_key ''-n''" "\<not> is_pause_key lib ''-n''"
  "recognized_key lib ''COMMAND''" "\<not> recognized_key lib ''VERBOSE''"
  by code_simp+

lemma sample_values:
  "suitable_runs lib (PStr ''3'')" "unsuitable_runs lib (PStr ''0'')" "unsuitable_runs lib (PStr ''abc'')"
  "unsuitable_pause lib (PStr ''-1'')"
  by code_simp+

lemma conf_json_getopt:
  "getopt [''-c'', ''echo a'', ''-n'', ''3'', ''conf.json''] ''c:n:w:ph'' [''help'']
     = Inr ([(''-c'', ''echo a''), (''-n'', ''3'')], [''conf.json''])"
  by (simp add: getopt_def)

section \<open>Claims about the summary block\<close>

subsection \<open>C7: the error count\<close>

text \<open>
  C7. After a completed execution the reported error count is the number of records
  whose exit code is not zero, and the warning line is printed exactly when that
  number is not zero (and then carries it).
\<close>

theorem error_count_reported:
  assumes "execute w self = (ev, Return (self', rep))"
  shows "errors rep = int (length (filter (\<lambda>t. e_code t \<noteq> 0) (timings self')))
           \<and> (Print (Attention k) \<in> set ev \<longleftrightarrow> k = errors rep \<and> errors rep \<noteq> 0)"
proof -
  from execute_Return [OF assms] obtain ev1 ev2 where
    rl: "run_loop w [0..<nat (runs self)] self = (ev1, Return self')"
    and rp: "results_processing self' = (ev2, Return rep)"
    and ev: "ev = [Print (Executing (command self) (runs self) (pause self)),
                   Print (if mode_prl self then InParallelMode else InSequentialMode)]
                  @ ev1 @ (if mode_prl self' then [Print WaitingForThreads, Print Done] else [])
                  @ ev2"
    by blast
  from results_processing_Return [OF rp] obtain acc where
    acc: "timing_loop (timings self') initial_results = Inr acc"
    and er: "errors rep = error_cnt acc"
    and ev2: "ev2 = [Print (TotalTime (total_time rep)), Print (Fastest (fastest rep)),
                   Print (Slowest (slowest rep)), Print (Average (average rep)),
                   Print (Median (median rep))]
                  @ (if errors rep \<noteq> 0 then [Print (Attention (errors rep))] else [])"
    by blast
  have count: "errors rep = int (length (filter (\<lambda>t. e_code t \<noteq> 0) (timings self')))"
    using timing_loop_error_cnt [OF acc] er by (simp add: initial_results_def)
  have "Print (Attention k) \<notin> set ev1" using rl by (rule run_loop_no_attention)
  then have "Print (Attention k) \<in> set ev \<longleftrightarrow> Print (Attention k) \<in> set ev2"
    unfolding ev by auto
  also have "\<dots> \<longleftrightarrow> k = errors rep \<and> errors rep \<noteq> 0"
    unfolding ev2 by auto
  finally show ?thesis using count by simp
qed

theorem error_count_reported_witness:
  "execute example_world example_script = (example_events, Return (example_final, example_report))
     \<and> errors example_report = 1
     \<and> length (filter (\<lambda>t. e_code t \<noteq> 0) (timings example_final)) = 1
     \<and> Print (Attention 1) \<in> set example_events"
  using error_count_reported [OF example_execute, of 1] example_execute
  by (simp add: example_report_def example_final_def)

subsection \<open>C9: fastest, average, median, slowest\<close>

text \<open>
  C9. After a completed execution with at least one run, the fastest and the slowest
  figure are the least and the greatest duration on record, and both the average and
  the median lie between them. (The number of runs is at most \<open>2\<^sup>5\<^sup>3\<close>, where
  \<^verbatim>\<open>float(self.runs)\<close> is exact.)
\<close>

theorem statistics_ordered:
  assumes ex: "execute w self = (ev, Return (self', rep))"
      and len: "length (timings self) = nat (runs self)"
      and pos: "1 \<le> runs self" and small: "runs self \<le> 2 ^ 53"
      and td: "\<forall>t \<in> set (timings self'). is_timedelta (time t)"
  shows "fastest rep = Min (time ` set (timings self'))
           \<and> slowest rep = Max (time ` set (timings self'))
           \<and> fastest rep \<le> average rep \<and> average rep \<le> slowest rep
           \<and> fastest rep \<le> median rep \<and> median rep \<le> slowest rep"
proof -
  from execute_Return [OF ex] obtain ev1 ev2 where
    rl: "run_loop w [0..<nat (runs self)] self = (ev1, Return self')"
    and rp: "results_processing self' = (ev2, Return rep)"
    by blast
  from run_loop_Return [OF rl] len
  have runs': "runs self' = runs self" and len': "length (timings self') = nat (runs self')"
    by simp_all
  have pos': "1 \<le> runs self'" and small': "runs self' \<le> 2 ^ 53"
    using pos small runs' by simp_all
  have ne: "timings self' \<noteq> []" using len' pos' by auto
  define S where "S = time ` set (timings self')"
  have S: "finite S" "S \<noteq> {}" using ne by (simp_all add: S_def)
  have f: "fastest rep = Min S" and s: "slowest rep = Max S"
    using fastest_slowest [OF rp ne td] by (simp_all add: S_def)
  have lo: "\<forall>x \<in> set (map time (timings self')). Min S \<le> x"
    using S by (simp add: S_def)
  have hi: "\<forall>x \<in> set (map time (timings self')). x \<le> Max S"
    using S by (simp add: S_def)
  have n: "int (length (timings self')) = runs self'"
    using len' pos' by simp
  have avg: "average rep = divide_and_round (sum_list (map time (timings self'))) (runs self')"
    using average_value [OF rp pos' small'] .
  have a: "Min S \<le> average rep \<and> average rep \<le> Max S"
    unfolding avg
    using sum_list_lower [OF lo] sum_list_upper [OF hi] pos'
    by (intro divide_and_round_bounds) (simp_all add: n)
  define ds where "ds = sort (map time (timings self'))"
  from results_processing_Return [OF rp] have med: "median_of self' = Inr (median rep)"
    by blast
  have m: "median rep =
      divide_and_round (ds ! (length ds div 2) + ds ! (length ds - 1 - length ds div 2)) 2"
    using median_of_value [OF len' pos' med ds_def refl refl] .
  have lds: "length ds = nat (runs self')" using len' by (simp add: ds_def)
  then have i1: "length ds div 2 < length ds" and i2: "length ds - 1 - length ds div 2 < length ds"
    using pos' by auto
  have mem: "ds ! i \<in> S" if "i < length ds" for i
  proof -
    from that have "ds ! i \<in> set ds" by simp
    then show ?thesis by (simp add: ds_def S_def)
  qed
  have b1: "Min S \<le> ds ! i \<and> ds ! i \<le> Max S" if "i < length ds" for i
    using mem [OF that] S by simp
  have b: "Min S \<le> median rep \<and> median rep \<le> Max S"
    unfolding m using b1 [OF i1] b1 [OF i2]
    by (intro divide_and_round_bounds) simp_all
  from f s a b show ?thesis by (simp add: S_def)
qed

theorem statistics_ordered_witness:
  "execute example_world example_script = (example_events, Return (example_final, example_report))
     \<and> Min (time ` set (timings example_final)) = 1001
     \<and> Max (time ` set (timings example_final)) = 1002
     \<and> fastest example_report = 1001 \<and> slowest example_report = 1002
     \<and> fastest example_report \<le> average example_report
     \<and> average example_report \<le> slowest example_report
     \<and> fastest example_report \<le> median example_report
     \<and> median example_report \<le> slowest example_report"
  using statistics_ordered [OF example_execute example_script_facts example_final_valid]
    example_execute
  by (simp add: example_final_def)

subsection \<open>C1: the median\<close>

text \<open>
  C1, as the code has it. With the durations sorted and \<open>mid = n div 2\<close>, the reported
  median is the sum of the entries at \<open>mid\<close> and \<open>n - 1 - mid\<close>, halved and rounded to a
  whole microsecond, a half going to the even neighbour: it is the exact half when the
  sum is even, and the middle entry itself when \<open>n\<close> is odd.
\<close>

theorem median_rounded:
  assumes ex: "execute w self = (ev, Return (self', rep))"
      and len: "length (timings self) = nat (runs self)" and pos: "1 \<le> runs self"
      and ds: "ds = sort (map time (timings self'))" and n: "n = length ds" and mid: "mid = n div 2"
  shows "median rep = divide_and_round (ds ! mid + ds ! (n - 1 - mid)) 2
           \<and> \<bar>2 * median rep - (ds ! mid + ds ! (n - 1 - mid))\<bar> \<le> 1
           \<and> (even (ds ! mid + ds ! (n - 1 - mid)) \<longrightarrow>
                 2 * median rep = ds ! mid + ds ! (n - 1 - mid))
           \<and> (odd (ds ! mid + ds ! (n - 1 - mid)) \<longrightarrow> even (median rep))
           \<and> (odd n \<longrightarrow> median rep = ds ! mid)"
proof -
  from execute_Return [OF ex] obtain ev1 ev2 where
    rl: "run_loop w [0..<nat (runs self)] self = (ev1, Return self')"
    and rp: "results_processing self' = (ev2, Return rep)"
    by blast
  from run_loop_Return [OF rl] len pos
  have len': "length (timings self') = nat (runs self')" and pos': "1 \<le> runs self'"
    by simp_all
  from results_processing_Return [OF rp] have med: "median_of self' = Inr (median rep)"
    by blast
  have m: "median rep = divide_and_round (ds ! mid + ds ! (n - 1 - mid)) 2"
    using median_of_value [OF len' pos' med ds n mid] .
  have same: "n - 1 - mid = mid" if "odd n"
    using that mid by presburger
  have "median rep = ds ! mid" if "odd n"
    using divide_and_round_two [of "ds ! mid + ds ! mid"] same [OF that] m by simp
  with divide_and_round_two [of "ds ! mid + ds ! (n - 1 - mid)"] m show ?thesis
    by simp
qed

theorem median_rounded_witness:
  "execute example_world example_script = (example_events, Return (example_final, example_report))
     \<and> sort (map time (timings example_final)) = [1001, 1002]
     \<and> median example_report = 1002
     \<and> \<bar>2 * median example_report - (1002 + 1001)\<bar> \<le> (1::int)
     \<and> even (median example_report)"
  using median_rounded [OF example_execute example_script_facts(1,2) refl refl refl]
    example_execute
  by (simp add: example_final_def example_report_def)

text \<open>
  The median is not always the exact half: for durations of 1001 and 1002 microseconds
  the script reports 1002, not 1001.5.
\<close>

theorem median_exact_counterexample:
  "reported (execute example_world example_script) = Some example_report
     \<and> sort (map time (records (execute example_world example_script))) = [1001, 1002]
     \<and> median example_report = 1002
     \<and> (of_int (median example_report) :: rat)
         \<noteq> (of_int ([1001, 1002] ! (2 div 2)) + of_int ([1001, 1002] ! (2 - 1 - 2 div 2))) / 2"
  by (simp add: example_execute reported_def records_def example_final_def example_report_def)

subsection \<open>C8: the average\<close>

text \<open>
  C8, as the code has it. For at most \<open>2\<^sup>5\<^sup>3\<close> runs the reported average is the sum
  of the durations divided by their number and rounded to a whole microsecond, a half
  going to the even neighbour: it is never further than half a microsecond from the
  exact quotient, and it is not the truncated quotient.
\<close>

theorem average_rounded:
  assumes ex: "execute w self = (ev, Return (self', rep))"
      and len: "length (timings self) = nat (runs self)"
      and pos: "1 \<le> runs self" and small: "runs self \<le> 2 ^ 53"
      and n: "n = int (length (timings self'))"
      and total: "summed = sum_list (map time (timings self'))"
  shows "average rep = divide_and_round summed n
           \<and> 2 * \<bar>n * average rep - summed\<bar> \<le> n
           \<and> (2 * \<bar>n * average rep - summed\<bar> = n \<longrightarrow> even (average rep))
           \<and> \<bar>(of_int (average rep) :: rat) - of_int summed / of_int n\<bar> \<le> 1 / 2"
proof -
  from execute_Return [OF ex] obtain ev1 ev2 where
    rl: "run_loop w [0..<nat (runs self)] self = (ev1, Return self')"
    and rp: "results_processing self' = (ev2, Return rep)"
    by blast
  from run_loop_Return [OF rl] len pos small
  have len': "length (timings self') = nat (runs self')" and pos': "1 \<le> runs self'"
    and small': "runs self' \<le> 2 ^ 53"
    by simp_all
  have nr: "n = runs self'" using n len' pos' by simp
  have npos: "0 < n" using nr pos' by simp
  have avg: "average rep = divide_and_round summed n"
    using average_value [OF rp pos' small'] by (simp add: total nr)
  have near: "2 * \<bar>n * average rep - summed\<bar> \<le> n"
    using divide_and_round_nearest [OF npos, of summed] unfolding avg by linarith
  have tie: "even (average rep)" if "2 * \<bar>n * average rep - summed\<bar> = n"
    using divide_and_round_tie [OF npos, of summed] that by (simp add: avg)
  have "\<bar>(of_int (average rep) :: rat) - of_int summed / of_int n\<bar>
          = \<bar>of_int (n * average rep - summed)\<bar> / of_int n"
    using npos by (simp add: field_simps)
  also have "\<dots> \<le> 1 / 2"
  proof -
    from near have "(of_int (2 * \<bar>n * average rep - summed\<bar>) :: rat) \<le> of_int n"
      by (simp only: of_int_le_iff)
    then show ?thesis using npos by (simp add: field_simps)
  qed
  finally show ?thesis using avg near tie by simp
qed

theorem average_rounded_witness:
  "execute example_world example_script = (example_events, Return (example_final, example_report))
     \<and> sum_list (map time (timings example_final)) = 2003
     \<and> average example_report = 1002
     \<and> 2 * \<bar>2 * average example_report - 2003\<bar> \<le> (2::int)
     \<and> even (average example_report)"
  using average_rounded [OF example_execute example_script_facts refl refl] example_execute
  by (simp add: example_final_def example_report_def)

text \<open>
  The average is not always the exact quotient: 1001 and 1002 microseconds average to
  1002, not 1001.5.
\<close>

theorem average_exact_counterexample:
  "reported (execute example_world example_script) = Some example_report
     \<and> map time (records (execute example_world example_script)) = [1001, 1002]
     \<and> average example_report = 1002
     \<and> (of_int (average example_report) :: rat) \<noteq> of_int (sum_list [1001, 1002]) / of_int 2"
  by (simp add: example_execute reported_def records_def example_final_def example_report_def)

subsection \<open>C6: the total span\<close>

text \<open>
  C6. The reported total is the latest finish minus the earliest start of the records;
  it is not the sum of the durations. The script looks for the earliest start from
  9999-12-31 00:00:00 downwards, so this is stated for run sets in which one run at
  least starts no later than that.
\<close>

theorem total_time_span:
  assumes ex: "execute w self = (ev, Return (self', rep))"
      and dt: "\<forall>t \<in> set (timings self'). is_datetime (finish t)"
      and early: "\<exists>t \<in> set (timings self'). start t \<le> MAXYEAR_12_31"
  shows "total_time rep = Max (finish ` set (timings self')) - Min (start ` set (timings self'))"
proof -
  from execute_Return [OF ex] obtain ev1 ev2 where
    rp: "results_processing self' = (ev2, Return rep)"
    by blast
  from results_processing_Return [OF rp] obtain acc where
    acc: "timing_loop (timings self') initial_results = Inr acc"
    and tt: "total_time rep = max_finish acc - min_start acc"
    by blast
  from early have ne: "timings self' \<noteq> []" by auto
  define S where "S = start ` set (timings self')"
  define F where "F = finish ` set (timings self')"
  have S: "finite S" "S \<noteq> {}" and F: "finite F" "F \<noteq> {}"
    using ne by (simp_all add: S_def F_def)
  from early obtain s where "s \<in> S" "s \<le> MAXYEAR_12_31" by (auto simp: S_def)
  with S have "Min S \<le> MAXYEAR_12_31" by (meson Min_le order_trans)
  with S have mn: "Min (insert MAXYEAR_12_31 S) = Min S" by (simp add: min_absorb2)
  have "\<forall>x \<in> F. DATETIME_MIN \<le> x" using dt by (auto simp: F_def is_datetime_def)
  from Max_insert_bound [OF F this] have mx: "Max (insert DATETIME_MIN F) = Max F" .
  from timing_loop_min_start [OF acc] timing_loop_max_finish [OF acc] mn mx tt
  show ?thesis by (simp add: initial_results_def S_def F_def)
qed

text \<open>
  In the sample run the total is 3002 microseconds, from the start of the first run to
  the finish of the second, while the two durations add up to 2003.
\<close>

theorem total_time_span_witness:
  "execute example_world example_script = (example_events, Return (example_final, example_report))
     \<and> Max (finish ` set (timings example_final)) = 63839664000003002
     \<and> Min (start ` set (timings example_final)) = 63839664000000000
     \<and> total_time example_report
         = Max (finish ` set (timings example_final)) - Min (start ` set (timings example_final))
     \<and> total_time example_report = 3002
     \<and> sum_list (map time (timings example_final)) = 2003"
proof -
  have dt: "\<forall>t \<in> set (timings example_final). is_datetime (finish t)"
    by (simp add: example_final_def is_datetime_def DATETIME_MIN_def DATETIME_MAX_def)
  have early: "\<exists>t \<in> set (timings example_final). start t \<le> MAXYEAR_12_31"
    by (simp add: example_final_def MAXYEAR_12_31_def)
  have mx: "Max (finish ` set (timings example_final)) = 63839664000003002"
    by (simp add: example_final_def)
  have mn: "Min (start ` set (timings example_final)) = 63839664000000000"
    by (simp add: example_final_def)
  from total_time_span [OF example_execute dt early] example_execute mx mn
  show ?thesis by (simp add: example_final_def example_report_def)
qed

text \<open>
  The condition on the starts is needed. One run of one second that starts at
  9999-12-31 00:00:01 is reported with a total of two seconds: the search for the
  earliest start begins at midnight of that day, not at the latest instant there is,
  and no start of that day is earlier.
\<close>

lemma total_time_on_last_day:
  "main lib no_files last_day_world [''-c'', ''true'', ''-n'', ''1'']
     = ([Print (Executing (PStr ''true'') 1 5), Print InSequentialMode,
         Print (StartingIteration 1), RunCommand (PStr ''true'') 0, Print (DoneIn 1000000),
         Print (TotalTime 2000000), Print (Fastest 1000000), Print (Slowest 1000000),
         Print (Average 1000000), Print (Median 1000000)], 0)"
  by code_simp

section \<open>Claims about configuration and exit statuses\<close>

subsection \<open>C2: a configuration file replaces the command line\<close>

text \<open>
  C2. When the command line parses and names a file that holds JSON, the outcome of
  \<^verbatim>\<open>__init__\<close> is the one of the invocation that gives the file alone: no option of
  the command line has any effect. A configuration is resolved from a JSON object only,
  and then it is read off the file: the command is the value of the last key for the
  command; the number of runs is what \<^verbatim>\<open>int\<close> makes of the value of the last key for
  it, and 8 when the file has no such key; the pause likewise, with 5; the mode is
  parallel exactly when the file has a key for it. JSON that is no object resolves to
  nothing: \<^verbatim>\<open>items\<close> raises \<^verbatim>\<open>AttributeError\<close>, whatever the command line says.
\<close>

theorem file_replaces_command_line:
  assumes "getopt argv ''c:n:w:ph'' [''help''] = Inr (opts, filename # rest)"
      and "fs filename = Json json_data"
  shows "SPscript_init lib fs argv = SPscript_init lib fs [''--'', filename]
           \<and> (\<forall>out self. SPscript_init lib fs argv = (out, Return self) \<longrightarrow>
                 (\<exists>kvs. json_data = PDict kvs
                    \<and> last_value (is_command_key lib) kvs = Some (command self)
                    \<and> (case last_value (is_runs_key lib) kvs of
                          None \<Rightarrow> runs self = 8
                        | Some v \<Rightarrow> py_int lib v = Inr (runs self))
                    \<and> (case last_value (is_pause_key lib) kvs of
                          None \<Rightarrow> pause self = 5
                        | Some v \<Rightarrow> py_int lib v = Inr (pause self))
                    \<and> (mode_prl self \<longleftrightarrow> (\<exists>kv \<in> set kvs. is_parallel_key lib (fst kv)))
                    \<and> timings self = replicate (nat (runs self)) blank_timing))
           \<and> ((\<forall>kvs. json_data \<noteq> PDict kvs) \<longrightarrow>
                 SPscript_init lib fs argv = ([], Raises AttributeError))"
proof -
  have same: "SPscript_init lib fs argv = SPscript_init lib fs [''--'', filename]"
    using assms(1) by (simp add: SPscript_init_def try_body_positional [of argv opts filename rest])
  have resolved: "\<exists>kvs. json_data = PDict kvs
                    \<and> last_value (is_command_key lib) kvs = Some (command self)
                    \<and> (case last_value (is_runs_key lib) kvs of
                          None \<Rightarrow> runs self = 8
                        | Some v \<Rightarrow> py_int lib v = Inr (runs self))
                    \<and> (case last_value (is_pause_key lib) kvs of
                          None \<Rightarrow> pause self = 5
                        | Some v \<Rightarrow> py_int lib v = Inr (pause self))
                    \<and> (mode_prl self \<longleftrightarrow> (\<exists>kv \<in> set kvs. is_parallel_key lib (fst kv)))
                    \<and> timings self = replicate (nat (runs self)) blank_timing"
    if init: "SPscript_init lib fs argv = (out, Return self)" for out self
  proof -
    from SPscript_init_Return [OF init] obtain s1 where
      tb: "try_body lib fs argv initial_script = (out, Return s1)" and tr: "truthy (command s1)"
      and self: "self = s1\<lparr>timings := replicate (nat (runs s1)) blank_timing\<rparr>"
      by blast
    have "\<exists>kvs. json_data = PDict kvs"
    proof (rule ccontr)
      assume "\<not> (\<exists>kvs. json_data = PDict kvs)"
      then have "\<forall>kvs. json_data \<noteq> PDict kvs" by simp
      from try_body_not_object [where fs = fs and filename = filename, OF assms this] tb
      show False by simp
    qed
    then obtain kvs where obj: "json_data = PDict kvs" ..
    have "try_body lib fs argv initial_script = options_loop lib kvs initial_script"
      using assms(1) assms(2) [unfolded obj] by (rule try_body_file)
    with tb have ol: "options_loop lib kvs initial_script = (out, Return s1)"
      by simp
    have falsy: "\<not> truthy (command initial_script)"
      by (simp add: initial_script_def)
    from options_loop_last [OF ol] tr falsy
    have cmd: "last_value (is_command_key lib) kvs = Some (command s1)"
      by (auto split: option.splits)
    from options_loop_last [OF ol]
    have num: "(case last_value (is_runs_key lib) kvs of
                  None \<Rightarrow> runs s1 = 8 | Some v \<Rightarrow> py_int lib v = Inr (runs s1))
             \<and> (case last_value (is_pause_key lib) kvs of
                  None \<Rightarrow> pause s1 = 5 | Some v \<Rightarrow> py_int lib v = Inr (pause s1))"
      by (auto simp: initial_script_def DEFAULT_RUNS_def DEFAULT_PAUSE_def split: option.splits)
    from options_loop_kept [OF ol]
    have mode: "mode_prl s1 \<longleftrightarrow> (\<exists>kv \<in> set kvs. is_parallel_key lib (fst kv))"
      by (simp add: initial_script_def)
    from obj cmd num mode self show ?thesis by (auto split: option.splits)
  qed
  have no_object: "SPscript_init lib fs argv = ([], Raises AttributeError)"
    if "\<forall>kvs. json_data \<noteq> PDict kvs"
    using try_body_not_object [where fs = fs and filename = filename, OF assms that]
    by (simp add: SPscript_init_def)
  from same resolved no_object show ?thesis by blast
qed

text \<open>
  The scenario of the specification: \<^verbatim>\<open>-c 'echo a' -n 3 conf.json\<close>, the file holding
  \<^verbatim>\<open>{"COMMAND": "echo b", "SECONDS": 1}\<close>.
\<close>

theorem file_replaces_command_line_witness:
  "getopt [''-c'', ''echo a'', ''-n'', ''3'', ''conf.json''] ''c:n:w:ph'' [''help'']
     = Inr ([(''-c'', ''echo a''), (''-n'', ''3'')], [''conf.json''])
   \<and> conf_json ''conf.json'' = Json (PDict [(''COMMAND'', PStr ''echo b''), (''SECONDS'', PInt 1)])
   \<and> SPscript_init sample_strlib conf_json [''-c'', ''echo a'', ''-n'', ''3'', ''conf.json'']
       = SPscript_init sample_strlib conf_json [''--'', ''conf.json'']
   \<and> SPscript_init sample_strlib conf_json [''-c'', ''echo a'', ''-n'', ''3'', ''conf.json'']
       = ([], Return \<lparr>mode_prl = False, command = PStr ''echo b'', runs = 8, pause = 1,
                      timings = replicate 8 blank_timing\<rparr>)
   \<and> last_value (is_command_key sample_strlib)
        [(''COMMAND'', PStr ''echo b''), (''SECONDS'', PInt 1)] = Some (PStr ''echo b'')
   \<and> last_value (is_runs_key sample_strlib)
        [(''COMMAND'', PStr ''echo b''), (''SECONDS'', PInt 1)] = None
   \<and> last_value (is_pause_key sample_strlib)
        [(''COMMAND'', PStr ''echo b''), (''SECONDS'', PInt 1)] = Some (PInt 1)"
proof -
  have f: "conf_json ''conf.json''
      = Json (PDict [(''COMMAND'', PStr ''echo b''), (''SECONDS'', PInt 1)])"
    by (simp add: conf_json_def)
  have r: "SPscript_init sample_strlib conf_json [''-c'', ''echo a'', ''-n'', ''3'', ''conf.json'']
       = ([], Return \<lparr>mode_prl = False, command = PStr ''echo b'', runs = 8, pause = 1,
                      timings = replicate 8 blank_timing\<rparr>)"
    by code_simp
  have lv: "last_value (is_command_key sample_strlib)
        [(''COMMAND'', PStr ''echo b''), (''SECONDS'', PInt 1)] = Some (PStr ''echo b'')"
     "last_value (is_runs_key sample_strlib)
        [(''COMMAND'', PStr ''echo b''), (''SECONDS'', PInt 1)] = None"
     "last_value (is_pause_key sample_strlib)
        [(''COMMAND'', PStr ''echo b''), (''SECONDS'', PInt 1)] = Some (PInt 1)"
    by code_simp+
  from file_replaces_command_line
         [where lib = sample_strlib and fs = conf_json and filename = "''conf.json''",
          OF conf_json_getopt f]
  have "SPscript_init sample_strlib conf_json [''-c'', ''echo a'', ''-n'', ''3'', ''conf.json'']
       = SPscript_init sample_strlib conf_json [''--'', ''conf.json'']"
    by blast
  with conf_json_getopt f r lv show ?thesis by simp
qed

text \<open>
  A file that sets every parameter, in lower case and with a number of runs given
  twice: the later one counts.
\<close>

lemma file_sets_everything:
  "SPscript_init lib
      (\<lambda>f. Json (PDict [(''command'', PStr ''true''), (''Times'', PInt 4), (''seconds'', PInt 0),
                         (''parallel'', PNone), (''TIMES'', PStr ''2'')]))
      [''-n'', ''7'', ''conf.json'']
     = ([], Return \<lparr>mode_prl = True, command = PStr ''true'', runs = 2, pause = 0,
                    timings = replicate 2 blank_timing\<rparr>)"
  by code_simp

subsection \<open>C10: keys the script does not know\<close>

text \<open>
  C10, as the code has it. Take a file that holds a JSON object without a key
  \<^verbatim>\<open>-h\<close> or \<^verbatim>\<open>--help\<close>. Its keys that are none of the option spellings \<^verbatim>\<open>-c\<close>,
  \<^verbatim>\<open>-n\<close>, \<^verbatim>\<open>-w\<close>, \<^verbatim>\<open>-p\<close> and whose upper-case form (by \<^verbatim>\<open>str.upper\<close>) is none of
  COMMAND, TIMES, SECONDS, PARALLEL are ignored: the script behaves as if the file did
  not have them.
\<close>

theorem unknown_keys_ignored:
  assumes "getopt argv ''c:n:w:ph'' [''help''] = Inr (opts, filename # rest)"
      and "fs filename = Json (PDict kvs)"
      and "\<forall>kv \<in> set kvs. \<not> is_help_key (fst kv)"
      and "fs' filename = Json (PDict (filter (\<lambda>kv. configuration_key lib (fst kv)) kvs))"
  shows "SPscript_init lib fs argv = SPscript_init lib fs' argv
           \<and> main lib fs w argv = main lib fs' w argv"
proof -
  have known: "filter (\<lambda>kv. configuration_key lib (fst kv)) kvs
      = filter (\<lambda>kv. recognized_key lib (fst kv)) kvs"
    using assms(3) by (intro filter_cong) (auto simp: configuration_key_def recognized_key_def)
  have 1: "try_body lib fs argv initial_script = options_loop lib kvs initial_script"
    using assms(1,2) by (rule try_body_file)
  have 2: "try_body lib fs' argv initial_script =
      options_loop lib (filter (\<lambda>kv. recognized_key lib (fst kv)) kvs) initial_script"
    using assms(1) assms(4) [unfolded known] by (rule try_body_file)
  have "try_body lib fs argv initial_script = try_body lib fs' argv initial_script"
    using 1 2 options_loop_filter [OF initial_valid, of lib kvs] by simp
  then have "SPscript_init lib fs argv = SPscript_init lib fs' argv"
    by (simp add: SPscript_init_def)
  then show ?thesis by (simp add: main_def)
qed

theorem unknown_keys_ignored_witness:
  "extra_key_json ''conf.json''
     = Json (PDict [(''COMMAND'', PStr ''true''), (''VERBOSE'', PBool True)])
   \<and> plain_json ''conf.json'' = Json (PDict [(''COMMAND'', PStr ''true'')])
   \<and> SPscript_init sample_strlib extra_key_json [''conf.json'']
       = SPscript_init sample_strlib plain_json [''conf.json'']
   \<and> SPscript_init sample_strlib extra_key_json [''conf.json'']
       = ([], Return \<lparr>mode_prl = False, command = PStr ''true'', runs = 8, pause = 5,
                      timings = replicate 8 blank_timing\<rparr>)"
proof -
  have g: "getopt [''conf.json''] ''c:n:w:ph'' [''help''] = Inr ([], [''conf.json''])"
    by (simp add: getopt_def)
  have f: "extra_key_json ''conf.json''
     = Json (PDict [(''COMMAND'', PStr ''true''), (''VERBOSE'', PBool True)])"
    by (simp add: extra_key_json_def)
  have n: "\<forall>kv \<in> set [(''COMMAND'', PStr ''true''), (''VERBOSE'', PBool True)].
      \<not> is_help_key (fst kv)"
    by (simp add: is_help_key_def)
  have k: "configuration_key sample_strlib ''COMMAND''"
     "\<not> configuration_key sample_strlib ''VERBOSE''"
    by code_simp+
  have p: "plain_json ''conf.json'' = Json (PDict [(''COMMAND'', PStr ''true'')])"
    by (simp add: plain_json_def)
  have f': "plain_json ''conf.json''
     = Json (PDict (filter (\<lambda>kv. configuration_key sample_strlib (fst kv))
         [(''COMMAND'', PStr ''true''), (''VERBOSE'', PBool True)]))"
    by (simp add: plain_json_def k)
  have r: "SPscript_init sample_strlib plain_json [''conf.json'']
       = ([], Return \<lparr>mode_prl = False, command = PStr ''true'', runs = 8, pause = 5,
                      timings = replicate 8 blank_timing\<rparr>)"
    by code_simp
  from unknown_keys_ignored
         [where lib = sample_strlib and fs = extra_key_json and fs' = plain_json
            and filename = "''conf.json''" and w = steady_world, OF g f n f'] f p r
  show ?thesis by simp
qed

text \<open>
  A key spelled like an option is not ignored: \<^verbatim>\<open>{"COMMAND": "true", "-n": 3}\<close>
  resolves to 3 runs, where \<^verbatim>\<open>{"COMMAND": "true"}\<close> alone resolves to 8.
\<close>

theorem unknown_keys_counterexample:
  "upper sample_strlib ''-n'' \<notin> {''COMMAND'', ''TIMES'', ''SECONDS'', ''PARALLEL''}
   \<and> SPscript_init sample_strlib runs_option_json [''conf.json'']
       = ([], Return \<lparr>mode_prl = False, command = PStr ''true'', runs = 3, pause = 5,
                      timings = replicate 3 blank_timing\<rparr>)
   \<and> SPscript_init sample_strlib plain_json [''conf.json'']
       = ([], Return \<lparr>mode_prl = False, command = PStr ''true'', runs = 8, pause = 5,
                      timings = replicate 8 blank_timing\<rparr>)"
  by code_simp

text \<open>
  Likewise \<^verbatim>\<open>{"-c": "true"}\<close> gives the command. The upper-case form is the one of
  \<^verbatim>\<open>str.upper\<close>: a key written with the dotless \<^verbatim>\<open>i\<close> counts as TIMES.
\<close>

lemma option_key_sets_command:
  "SPscript_init lib (\<lambda>f. Json (PDict [(''-c'', PStr ''true'')])) [''conf.json'']
     = ([], Return \<lparr>mode_prl = False, command = PStr ''true'', runs = 8, pause = 5,
                    timings = replicate 8 blank_timing\<rparr>)"
  by code_simp

lemma dotless_times_key:
  "upper sample_strlib dotless_times = ''TIMES''
   \<and> SPscript_init sample_strlib dotless_times_json [''conf.json'']
       = ([], Return \<lparr>mode_prl = False, command = PStr ''true'', runs = 3, pause = 5,
                      timings = replicate 3 blank_timing\<rparr>)"
  by code_simp

text \<open>
  A file with a key \<^verbatim>\<open>-h\<close> is left aside above. The help text of the script says of
  \<^verbatim>\<open>-h\<close> that it is not used in JSON; still, with \<^verbatim>\<open>{"COMMAND": "true", "-h": 1}\<close>
  the script prints the usage text and exits.
\<close>

lemma help_key_in_file:
  "main lib help_key_json steady_world [''conf.json''] = ([Print HelpText], 0)"
  by code_simp

subsection \<open>C5: the help request\<close>

text \<open>
  C5, as the code has it. When the command line parses and has no positional argument,
  and every \<^verbatim>\<open>-n\<close> and \<^verbatim>\<open>-w\<close> option before a help option carries a suitable
  number, the script prints the usage text and exits with status 0 without running a
  command, whatever follows the help option.
\<close>

theorem help_short_circuits:
  assumes "getopt argv ''c:n:w:ph'' [''help''] = Inr (opts, [])"
      and "opts = pre @ (h, x) # post"
      and "is_help_key h"
      and "\<forall>(k, v) \<in> set pre. (is_runs_key lib k \<longrightarrow> suitable_runs lib (PStr v))
                              \<and> (is_pause_key lib k \<longrightarrow> suitable_pause lib (PStr v))"
  shows "main lib fs w argv = ([Print HelpText], 0) \<and> commands_run (fst (main lib fs w argv)) = 0"
proof -
  let ?val = "\<lambda>(opt, v). (opt, PStr v)"
  have lo: "load_opts fs opts [] = ([], Return (map ?val opts))"
    by (simp add: load_opts_def)
  have ne: "map ?val opts \<noteq> []" using assms(2) by simp
  have tb: "try_body lib fs argv initial_script = options_loop lib (map ?val opts) initial_script"
    using assms(1) lo ne by (rule try_body_options)
  have split: "map ?val opts = map ?val pre @ (h, PStr x) # map ?val post"
    using assms(2) by simp
  have pre: "\<forall>ov \<in> set (map ?val pre).
      (is_runs_key lib (fst ov) \<longrightarrow> suitable_runs lib (snd ov))
        \<and> (is_pause_key lib (fst ov) \<longrightarrow> suitable_pause lib (snd ov))"
    using assms(4) by auto
  have "options_loop lib (map ?val opts) initial_script = ([Print HelpText], Exits 0)"
    unfolding split using initial_valid _ pre by (rule options_loop_help) (simp add: assms(3))
  with tb have "SPscript_init lib fs argv = ([Print HelpText], Exits 0)"
    by (simp add: SPscript_init_Exits)
  then show ?thesis by (simp add: main_Exits commands_run_def)
qed

theorem help_short_circuits_witness:
  "getopt [''-p'', ''-n'', ''3'', ''-h'', ''-n'', ''0''] ''c:n:w:ph'' [''help'']
     = Inr ([(''-p'', ''''), (''-n'', ''3''), (''-h'', ''''), (''-n'', ''0'')], [])
   \<and> main sample_strlib no_files steady_world [''-p'', ''-n'', ''3'', ''-h'', ''-n'', ''0'']
       = ([Print HelpText], 0)"
proof -
  have g: "getopt [''-p'', ''-n'', ''3'', ''-h'', ''-n'', ''0''] ''c:n:w:ph'' [''help'']
     = Inr ([(''-p'', ''''), (''-n'', ''3''), (''-h'', ''''), (''-n'', ''0'')], [])"
    by (simp add: getopt_def)
  have s: "[(''-p'', ''''), (''-n'', ''3''), (''-h'', ''''), (''-n'', ''0'')]
      = [(''-p'', ''''), (''-n'', ''3'')] @ (''-h'', '''') # [(''-n'', ''0'')]"
    by simp
  have p: "\<forall>(k, v) \<in> set [(''-p'', ''''), (''-n'', ''3'')].
      (is_runs_key sample_strlib k \<longrightarrow> suitable_runs sample_strlib (PStr v))
        \<and> (is_pause_key sample_strlib k \<longrightarrow> suitable_pause sample_strlib (PStr v))"
    by (simp add: sample_keys sample_values)
  from help_short_circuits [OF g s sample_keys(1) p] g show ?thesis by simp
qed

text \<open>
  An unsuitable number before the help option wins: \<^verbatim>\<open>-n 0 -h\<close> ends with status 2.
\<close>

theorem help_short_circuits_counterexample:
  "main sample_strlib no_files steady_world [''-n'', ''0'', ''-h''] = ([Print BadIntegers], 2)"
  by code_simp

text \<open>
  So do an option the script does not know, wherever it stands, and a file, whose items
  take the place of all options.
\<close>

lemma syntax_error_after_help:
  "main lib no_files steady_world [''-h'', ''-x'']
     = ([Print (GetoptErrorAndHelp (NotRecognized ''-x''))], 2)"
  by code_simp

lemma file_after_help:
  "snd (main lib plain_json steady_world [''-h'', ''conf.json'']) = 0
     \<and> commands_run (fst (main lib plain_json steady_world [''-h'', ''conf.json''])) = 8"
  by code_simp

subsection \<open>C4: unsuitable numbers\<close>

text \<open>
  C4. A value that is no integer, given for the number of runs, should end the script
  with its diagnostic and status 2 before any command runs. A file that gives 3.5 for
  TIMES does not: \<^verbatim>\<open>int(3.5)\<close> is 3, and the script runs the command three times and
  ends with status 0.
\<close>

theorem fractional_times_accepted:
  "SPscript_init lib fractional_times_json [''conf.json'']
     = ([], Return \<lparr>mode_prl = False, command = PStr ''true'', runs = 3, pause = 5,
                    timings = replicate 3 blank_timing\<rparr>)
   \<and> commands_run (fst (main lib fractional_times_json steady_world [''conf.json''])) = 3
   \<and> snd (main lib fractional_times_json steady_world [''conf.json'']) = 0"
  by code_simp

text \<open>
  The same value on the command line is rejected, since there it is a string; and a
  file that gives -0.5 for SECONDS, a pause below 0, is accepted with a pause of 0.
\<close>

lemma fractional_times_option:
  "main lib no_files steady_world [''-c'', ''true'', ''-n'', ''3.5''] = ([Print BadIntegers], 2)"
  by code_simp

lemma negative_pause_accepted:
  "SPscript_init lib negative_pause_json [''conf.json'']
     = ([], Return \<lparr>mode_prl = False, command = PStr ''true'', runs = 8, pause = 0,
                    timings = replicate 8 blank_timing\<rparr>)"
  by code_simp

text \<open>
  What the script does reject. Take the options in effect: those of the command line
  when there is no positional argument, the items of the file's JSON object otherwise.
  When one of them is a number of runs or a pause on whose value \<^verbatim>\<open>int\<close> raises
  \<^verbatim>\<open>ValueError\<close>, or of which it makes less than 1 run or a pause below 0, and before
  it there is no help request and no number that \<^verbatim>\<open>int\<close> fails on otherwise, then the
  script prints its diagnostic, exits with status 2 and runs no command.
\<close>

lemma unsuitable_number_rejected:
  assumes "getopt argv ''c:n:w:ph'' [''help''] = Inr (opts, args)"
      and "load_opts fs opts args = ([], Return eff)"
      and "eff = pre @ (k, v) # post"
      and "(is_runs_key lib k \<and> unsuitable_runs lib v) \<or> (is_pause_key lib k \<and> unsuitable_pause lib v)"
      and "\<forall>(k', v') \<in> set pre. \<not> is_help_key k'
              \<and> (is_runs_key lib k' \<or> is_pause_key lib k' \<longrightarrow> int_like lib v')"
  shows "main lib fs w argv = ([Print BadIntegers], 2) \<and> commands_run (fst (main lib fs w argv)) = 0"
proof -
  have ne: "eff \<noteq> []" using assms(3) by simp
  have tb: "try_body lib fs argv initial_script = options_loop lib eff initial_script"
    using assms(1,2) ne by (rule try_body_options)
  have pre: "\<forall>ov \<in> set pre. \<not> is_help_key (fst ov)
             \<and> (is_runs_key lib (fst ov) \<or> is_pause_key lib (fst ov) \<longrightarrow> int_like lib (snd ov))"
    using assms(5) by auto
  have bad: "(is_runs_key lib (fst (k, v)) \<and> unsuitable_runs lib (snd (k, v)))
             \<or> (is_pause_key lib (fst (k, v)) \<and> unsuitable_pause lib (snd (k, v)))"
    using assms(4) by simp
  have "options_loop lib eff initial_script = ([], Raises ValueError)"
    unfolding assms(3) using initial_valid bad pre by (rule options_loop_unsuitable)
  with tb have "SPscript_init lib fs argv = ([Print BadIntegers], Exits 2)"
    by (simp add: SPscript_init_ValueError)
  then show ?thesis by (simp add: main_Exits commands_run_def)
qed

lemma unsuitable_number_samples:
  "main lib no_files steady_world [''-c'', ''true'', ''-n'', ''abc''] = ([Print BadIntegers], 2)"
  "main lib no_files steady_world [''-c'', ''true'', ''-n'', ''0''] = ([Print BadIntegers], 2)"
  "main lib no_files steady_world [''-c'', ''true'', ''-w'', ''-1''] = ([Print BadIntegers], 2)"
  by code_simp+

text \<open>
  Whether a string with a character outside ASCII is a number is for the Unicode tables
  to say: with a no-break space before the \<^verbatim>\<open>3\<close>, as Python reads it, the command
  runs three times.
\<close>

lemma nbsp_number_accepted:
  "int_of_string sample_strlib nbsp_three = Some 3
   \<and> commands_run (fst (main sample_strlib no_files steady_world [''-c'', ''true'', ''-n'', nbsp_three])) = 3
   \<and> snd (main sample_strlib no_files steady_world [''-c'', ''true'', ''-n'', nbsp_three]) = 0"
  by code_simp

text \<open>
  A help option before the unsuitable number ends the script first, and with a file
  the number on the command line is not looked at.
\<close>

lemma help_before_unsuitable_number:
  "main lib no_files steady_world [''-h'', ''-n'', ''0''] = ([Print HelpText], 0)"
  by code_simp

lemma file_after_unsuitable_number:
  "snd (main lib plain_json steady_world [''-n'', ''0'', ''conf.json'']) = 0
     \<and> commands_run (fst (main lib plain_json steady_world [''-n'', ''0'', ''conf.json''])) = 8"
  by code_simp

subsection \<open>C3: exit statuses\<close>

text \<open>
  C3. Every configuration error should end with status 2. A file that gives
  \<^verbatim>\<open>null\<close> for TIMES does not: \<^verbatim>\<open>int(None)\<close> raises \<^verbatim>\<open>TypeError\<close>, which only the
  handler at top level catches, and the status is 1.
\<close>

theorem null_times_exit_status:
  "main lib null_times_json steady_world [''conf.json''] = ([Print (Unhandled TypeError)], 1)"
  by code_simp

text \<open>
  A file that gives the string \<^verbatim>\<open>"abc"\<close> for TIMES ends with status 2 and the
  diagnostic about unsuitable integers; a file that holds a JSON array and not an
  object ends with status 1, as the one with \<^verbatim>\<open>null\<close> does.
\<close>

lemma abc_times_exit_status:
  "main lib (\<lambda>f. Json (PDict [(''COMMAND'', PStr ''true''), (''TIMES'', PStr ''abc'')]))
      steady_world [''conf.json'']
     = ([Print BadIntegers], 2)"
  by code_simp

lemma json_array_exit_status:
  "main lib (\<lambda>f. Json (PList [PInt 1, PInt 2])) steady_world [''conf.json'']
     = ([Print (Unhandled AttributeError)], 1)"
  by code_simp

end
